theory Spec2Isabelle
  imports Complex_Main
begin

section \<open>C-Invaders: the entity pools and the frame loop of main.c\<close>

text \<open>
  The embedding follows \<^verbatim>\<open>src/Space Invaders/main.c\<close> function by function.
  The global variables of the program are the fields of the record \<open>game\<close>, and every
  function that mutates them takes the state and returns the new one.

  Conventions of the model:
  \<^item> a C \<^verbatim>\<open>float\<close> is a \<open>real\<close>. \<^verbatim>\<open>updatePlayer\<close>, where the position of the player can grow
    without any test in the code, rounds each operation to binary32 with \<open>f32\<close>; in the other
    functions the arithmetic on positions and timers is exact and rounding is not modelled;
  \<^item> a C \<^verbatim>\<open>int\<close> is an \<open>int\<close>: signed overflow is undefined behaviour in C, the model
    describes the executions without it;
  \<^item> a pool \<^verbatim>\<open>T* pool[N]\<close> is a list of \<open>T option\<close> of length \<open>N\<close>, \<open>None\<close> for the
    \<^verbatim>\<open>NULL\<close> pointer; \<^verbatim>\<open>malloc\<close> is taken to succeed;
  \<^item> a \<^verbatim>\<open>for\<close> loop over the slots is a \<open>fold\<close> of its body over the indices, and a loop
    that leaves with \<^verbatim>\<open>break\<close> is a recursive function over the indices still to visit;
  \<^item> the keyboard state, the frame time and the values of \<^verbatim>\<open>rand()\<close> are arguments;
  \<^item> sound and rendering calls have no effect on the state and are left out.
\<close>

subsection \<open>Structs and enums\<close>

record Enemy =
  e_px :: real
  e_py :: real
  killReward :: int
  e_shootTimer :: real

record Player =
  p_px :: real
  p_py :: real
  score :: int
  hiScore :: int
  livesLeft :: int
  p_shootTimer :: real

record Bullet =
  b_px :: real
  b_py :: real
  vy :: int

datatype ParticleTypes = BULLET_EXPLOSION | SHIP_EXPLOSION

record Particle =
  pt_px :: real
  pt_py :: real
  lifetime :: real
  particleType :: ParticleTypes

record SDL_Rect =
  r_x :: int
  r_y :: int
  r_w :: int
  r_h :: int

subsection \<open>Globals and defines\<close>

definition WINDOW_WIDTH :: int where "WINDOW_WIDTH = 640"
definition WINDOW_HEIGHT :: int where "WINDOW_HEIGHT = 480"

definition MAX_ENEMIES :: nat where "MAX_ENEMIES = 55"
definition MAX_PROJECTILES :: nat where "MAX_PROJECTILES = 20"
definition MAX_PARTICLES :: nat where "MAX_PARTICLES = 20"

definition PLAYER_SPEED :: int where "PLAYER_SPEED = 200"
definition ENEMY_SPEED :: int where "ENEMY_SPEED = 20"
definition BULLET_SPEED :: int where "BULLET_SPEED = 275"

definition PLAYER_WIDTH :: int where "PLAYER_WIDTH = 20"
definition PLAYER_HEIGHT :: int where "PLAYER_HEIGHT = 20"
definition ENEMY_WIDTH :: int where "ENEMY_WIDTH = 30"
definition ENEMY_HEIGHT :: int where "ENEMY_HEIGHT = 30"
definition BULLET_WIDTH :: int where "BULLET_WIDTH = 10"
definition BULLET_HEIGHT :: int where "BULLET_HEIGHT = 15"

lemmas constants =
  WINDOW_WIDTH_def WINDOW_HEIGHT_def MAX_ENEMIES_def MAX_PROJECTILES_def MAX_PARTICLES_def
  PLAYER_SPEED_def ENEMY_SPEED_def BULLET_SPEED_def PLAYER_WIDTH_def PLAYER_HEIGHT_def
  ENEMY_WIDTH_def ENEMY_HEIGHT_def BULLET_WIDTH_def BULLET_HEIGHT_def

text \<open>
  The global variables: the player, the three pools, the speed multiplier, the direction of
  the formation, the wave counter and the game-over flag.
\<close>

record game =
  player :: Player
  enemies :: "Enemy option list"
  bullets :: "Bullet option list"
  particles :: "Particle option list"
  ENEMY_SPEED_MULT :: real
  enemyDir :: int
  currentWave :: int
  gameOver :: bool

text \<open>The arrays have their declared sizes.\<close>

definition pools_ok :: "game \<Rightarrow> bool" where
  "pools_ok s \<longleftrightarrow>
     length (enemies s) = MAX_ENEMIES \<and>
     length (bullets s) = MAX_PROJECTILES \<and>
     length (particles s) = MAX_PARTICLES"

text \<open>The number of occupied slots of a pool.\<close>

definition live :: "'a option list \<Rightarrow> nat" where
  "live pool = length (filter (\<lambda>slot. slot \<noteq> None) pool)"

text \<open>The cast \<^verbatim>\<open>(int)f\<close> of a float truncates towards zero.\<close>

definition c_int :: "real \<Rightarrow> int" where
  "c_int v = (if 0 \<le> v then \<lfloor>v\<rfloor> else \<lceil>v\<rceil>)"

text \<open>The keys \<^verbatim>\<open>updatePlayer\<close> reads from \<^verbatim>\<open>SDL_GetKeyboardState\<close>.\<close>

record keys =
  SCANCODE_RIGHT :: bool
  SCANCODE_LEFT :: bool
  SCANCODE_SPACE :: bool

text \<open>
  Modelled from the spec: \<^verbatim>\<open>SDL_HasIntersection\<close> is a function of the SDL library, which is
  not part of the repository. The spec calls it axis-aligned rectangle overlap; the
  definition is SDL's: an empty rectangle meets nothing, and two rectangles meet when their
  horizontal and their vertical extents overlap in more than a point.
\<close>

definition SDL_RectEmpty :: "SDL_Rect \<Rightarrow> bool" where
  "SDL_RectEmpty r \<longleftrightarrow> r_w r \<le> 0 \<or> r_h r \<le> 0"

definition SDL_HasIntersection :: "SDL_Rect \<Rightarrow> SDL_Rect \<Rightarrow> bool" where
  "SDL_HasIntersection A B \<longleftrightarrow>
     \<not> SDL_RectEmpty A \<and> \<not> SDL_RectEmpty B \<and>
     max (r_x A) (r_x B) < min (r_x A + r_w A) (r_x B + r_w B) \<and>
     max (r_y A) (r_y B) < min (r_y A + r_h A) (r_y B + r_h B)"

subsection \<open>Pools\<close>

text \<open>
  The search loop of \<^verbatim>\<open>createBullet\<close> and \<^verbatim>\<open>createParticle\<close>: visit the slots in order,
  install the entity in the first one that is \<^verbatim>\<open>NULL\<close> and \<^verbatim>\<open>break\<close>.
\<close>

fun install :: "nat list \<Rightarrow> 'a \<Rightarrow> 'a option list \<Rightarrow> 'a option list" where
  "install [] v pool = pool"
| "install (i # rest) v pool =
     (if pool ! i = None then pool[i := Some v] else install rest v pool)"

text \<open>\<^verbatim>\<open>freeEnemies\<close>, \<^verbatim>\<open>freeBullets\<close>, \<^verbatim>\<open>freeParticles\<close>: every slot becomes \<^verbatim>\<open>NULL\<close>.\<close>

definition freeEnemies :: "game \<Rightarrow> game" where
  "freeEnemies s = fold (\<lambda>i t. t\<lparr>enemies := (enemies t)[i := None]\<rparr>) [0..<MAX_ENEMIES] s"

definition freeBullets :: "game \<Rightarrow> game" where
  "freeBullets s = fold (\<lambda>i t. t\<lparr>bullets := (bullets t)[i := None]\<rparr>) [0..<MAX_PROJECTILES] s"

definition freeParticles :: "game \<Rightarrow> game" where
  "freeParticles s = fold (\<lambda>i t. t\<lparr>particles := (particles t)[i := None]\<rparr>) [0..<MAX_PARTICLES] s"

subsection \<open>Binary32 rounding\<close>

text \<open>
  The value a \<^verbatim>\<open>float\<close> operation stores: the exact result rounded to the nearest number with
  a significand of 24 bits, ties to the even significand, with exponents from -126 upwards
  (subnormal numbers below). Overflow to infinity is left out: no value here comes near
  \<open>2 ^ 128\<close>. \<open>bits n\<close> is the number of binary digits of \<open>n\<close>, so that \<open>f32_exponent v\<close> is the
  exponent of the binade of \<open>v\<close>, and \<open>2 powi (f32_exponent v - 23)\<close> the spacing of the floats
  around \<open>v\<close>.
\<close>

fun bits :: "nat \<Rightarrow> nat" where
  "bits n = (if n = 0 then 0 else Suc (bits (n div 2)))"

definition round_even :: "real \<Rightarrow> int" where
  "round_even v =
     (let n = \<lfloor>v\<rfloor>; r = v - of_int n
      in if r < 1 / 2 then n
         else if r > 1 / 2 then n + 1
         else if even n then n else n + 1)"

definition f32_exponent :: "real \<Rightarrow> int" where
  "f32_exponent v = max (int (bits (nat \<lfloor>\<bar>v\<bar> * 2 ^ 149\<rfloor>)) - 150) (- 126)"

definition f32 :: "real \<Rightarrow> real" where
  "f32 v = (let q = 2 powi (f32_exponent v - 23) in of_int (round_even (v / q)) * q)"


subsection \<open>Player\<close>

definition createPlayer :: "Player \<Rightarrow> Player" where
  "createPlayer p = p\<lparr>
     p_px := of_int (WINDOW_WIDTH div 2),
     p_py := of_int (WINDOW_HEIGHT - (WINDOW_HEIGHT div 14)),
     score := 0,
     hiScore := 0,
     livesLeft := 3,
     p_shootTimer := 0\<rparr>"

text \<open>The bullet that \<^verbatim>\<open>createBullet\<close> writes into the slot it finds.\<close>

definition newBullet :: "int \<Rightarrow> int \<Rightarrow> int \<Rightarrow> Bullet" where
  "newBullet bx by dir =
     (let w_offset = (if dir = - 1 then PLAYER_WIDTH div 2
                      else if dir = 1 then ENEMY_WIDTH div 2 else 0);
          h_offset = (if dir = - 1 then PLAYER_HEIGHT div 2
                      else if dir = 1 then ENEMY_HEIGHT div 2 else 0)
      in \<lparr>b_px = of_int bx + of_int w_offset, b_py = of_int by + of_int h_offset, vy = dir\<rparr>)"

definition createBullet :: "int \<Rightarrow> int \<Rightarrow> int \<Rightarrow> game \<Rightarrow> game" where
  "createBullet bx by dir s =
     s\<lparr>bullets := install [0..<MAX_PROJECTILES] (newBullet bx by dir) (bullets s)\<rparr>"

definition createParticle :: "Particle \<Rightarrow> game \<Rightarrow> game" where
  "createParticle particle s =
     s\<lparr>particles := install [0..<MAX_PARTICLES]
         \<lparr>pt_px = pt_px particle, pt_py = pt_py particle, lifetime = lifetime particle,
          particleType = particleType particle\<rparr>
         (particles s)\<rparr>"

definition updatePlayer :: "keys \<Rightarrow> real \<Rightarrow> game \<Rightarrow> game" where
  "updatePlayer state delta s =
     (let s1 = (if SCANCODE_RIGHT state
                then s\<lparr>player := (player s)\<lparr>p_px :=
                       f32 (p_px (player s) + f32 (of_int PLAYER_SPEED * delta))\<rparr>\<rparr>
                else s);
          s2 = (if SCANCODE_LEFT state
                then s1\<lparr>player := (player s1)\<lparr>p_px :=
                       f32 (p_px (player s1) - f32 (of_int PLAYER_SPEED * delta))\<rparr>\<rparr>
                else s1);
          s3 = (if SCANCODE_SPACE state \<and> p_shootTimer (player s2) \<le> 0
                then (let t = createBullet (c_int (p_px (player s2))) (c_int (p_py (player s2))) (- 1) s2
                      in t\<lparr>player := (player t)\<lparr>p_shootTimer := 1\<rparr>\<rparr>)
                else s2)
      in s3\<lparr>player := (player s3)\<lparr>p_shootTimer := f32 (p_shootTimer (player s3) - delta)\<rparr>\<rparr>)"

subsection \<open>Enemies\<close>

text \<open>The enemy that \<^verbatim>\<open>createEnemies\<close> writes into slot \<open>i\<close> during wave \<open>w\<close>.\<close>

definition newEnemy :: "int \<Rightarrow> nat \<Rightarrow> Enemy" where
  "newEnemy w i =
     (let col = int i mod 11; row = int i div 11
      in \<lparr>e_px = of_int col * of_int ENEMY_WIDTH + (10 * of_int col) + 100,
          e_py = of_int row * of_int ENEMY_HEIGHT + (10 * of_int row) + 100,
          killReward = 10 * w,
          e_shootTimer = max 0.20 (1 - (0.05 * of_int w))\<rparr>)"

definition createEnemies :: "game \<Rightarrow> game" where
  "createEnemies s =
     fold (\<lambda>i t. t\<lparr>enemies := (enemies t)[i := Some (newEnemy (currentWave t) i)]\<rparr>)
       [0..<MAX_ENEMIES] s"

text \<open>The first loop of \<^verbatim>\<open>updateEnemies\<close>: move, and end the game when an enemy is too low.\<close>

definition moveEnemy :: "real \<Rightarrow> nat \<Rightarrow> game \<Rightarrow> game" where
  "moveEnemy delta i s =
     (case enemies s ! i of
        None \<Rightarrow> s
      | Some e \<Rightarrow>
          (let e' = (if enemyDir s = 1
                     then e\<lparr>e_px := e_px e + of_int ENEMY_SPEED * ENEMY_SPEED_MULT s * delta\<rparr>
                     else e\<lparr>e_px := e_px e - of_int ENEMY_SPEED * ENEMY_SPEED_MULT s * delta\<rparr>);
               s1 = s\<lparr>enemies := (enemies s)[i := Some e']\<rparr>
           in if e_py e' > of_int (WINDOW_HEIGHT - PLAYER_HEIGHT * 2 - ENEMY_HEIGHT)
              then s1\<lparr>gameOver := True\<rparr> else s1))"

text \<open>The inner loop of the reaction: every live enemy moves down by \<^verbatim>\<open>ENEMY_HEIGHT / 4\<close>,
  a division of two \<^verbatim>\<open>unsigned int\<close>.\<close>

definition lowerEnemy :: "nat \<Rightarrow> game \<Rightarrow> game" where
  "lowerEnemy i s =
     (case enemies s ! i of
        None \<Rightarrow> s
      | Some e \<Rightarrow> s\<lparr>enemies := (enemies s)[i := Some (e\<lparr>e_py := e_py e + of_int (ENEMY_HEIGHT div 4)\<rparr>)]\<rparr>)"

definition reverseEnemies :: "game \<Rightarrow> game" where
  "reverseEnemies s =
     (let s1 = s\<lparr>enemyDir := - enemyDir s\<rparr>;
          s2 = fold lowerEnemy [0..<MAX_ENEMIES] s1
      in s2\<lparr>ENEMY_SPEED_MULT := ENEMY_SPEED_MULT s2 + 0.025\<rparr>)"

text \<open>The second loop of \<^verbatim>\<open>updateEnemies\<close>, which leaves at the first enemy near an edge.\<close>

fun edgeCheck :: "nat list \<Rightarrow> game \<Rightarrow> game" where
  "edgeCheck [] s = s"
| "edgeCheck (i # rest) s =
     (case enemies s ! i of
        None \<Rightarrow> edgeCheck rest s
      | Some e \<Rightarrow>
          if e_px e < of_int (0 + ENEMY_WIDTH) \<or> e_px e > of_int (WINDOW_WIDTH - (2 * ENEMY_WIDTH))
          then reverseEnemies s
          else edgeCheck rest s)"

definition updateEnemies :: "real \<Rightarrow> game \<Rightarrow> game" where
  "updateEnemies delta s =
     edgeCheck [0..<MAX_ENEMIES] (fold (moveEnemy delta) [0..<MAX_ENEMIES] s)"

text \<open>
  \<^verbatim>\<open>enemyShoot\<close>: the loop state is the game, \<^verbatim>\<open>index\<close>, the array \<^verbatim>\<open>found\<close> and the number
  of calls of \<^verbatim>\<open>rand()\<close> made so far; \<open>rnd n\<close> is the value of the call number \<open>n\<close>.
\<close>

type_synonym shoot_state = "game \<times> int \<times> int list \<times> nat"

definition shootStep :: "real \<Rightarrow> (nat \<Rightarrow> int) \<Rightarrow> nat \<Rightarrow> shoot_state \<Rightarrow> shoot_state" where
  "shootStep delta rnd j = (\<lambda>(s, index, found, n).
     (case enemies s ! nat index of
        None \<Rightarrow> (s, index - 1, found, n)
      | Some e \<Rightarrow>
          if found ! j \<noteq> 1
          then (let fire = (rnd n mod 5000 < 10 \<and> e_shootTimer e \<le> 0);
                    s1 = (if fire then createBullet (c_int (e_px e)) (c_int (e_py e)) 1 s else s);
                    e1 = (if fire then e\<lparr>e_shootTimer := 1\<rparr> else e);
                    e2 = e1\<lparr>e_shootTimer := e_shootTimer e1 - delta\<rparr>
                in (s1\<lparr>enemies := (enemies s1)[nat index := Some e2]\<rparr>,
                    index - 1, found[j := 1], Suc n))
          else (s, index - 1, found, n)))"

definition enemyShoot :: "real \<Rightarrow> (nat \<Rightarrow> int) \<Rightarrow> game \<Rightarrow> game" where
  "enemyShoot delta rnd s =
     fst (fold (\<lambda>i st. fold (shootStep delta rnd) [0..<11] st) [0..<5]
            (s, int MAX_ENEMIES - 1, replicate 11 0, 0))"

subsection \<open>Bullets and particles\<close>

definition moveBullet :: "real \<Rightarrow> nat \<Rightarrow> game \<Rightarrow> game" where
  "moveBullet delta i s =
     (case bullets s ! i of
        None \<Rightarrow> s
      | Some b \<Rightarrow>
          (let b' = b\<lparr>b_py := b_py b + of_int (vy b) * of_int BULLET_SPEED * delta\<rparr>;
               s1 = s\<lparr>bullets := (bullets s)[i := Some b']\<rparr>
           in if b_py b' < 0 \<or> b_py b' > of_int (WINDOW_HEIGHT - BULLET_HEIGHT)
              then (let s2 = createParticle
                               \<lparr>pt_px = b_px b', pt_py = b_py b', lifetime = 0.5,
                                particleType = BULLET_EXPLOSION\<rparr> s1
                    in s2\<lparr>bullets := (bullets s2)[i := None]\<rparr>)
              else s1))"

definition updateBullets :: "real \<Rightarrow> game \<Rightarrow> game" where
  "updateBullets delta s = fold (moveBullet delta) [0..<MAX_PROJECTILES] s"

definition ageParticle :: "real \<Rightarrow> nat \<Rightarrow> game \<Rightarrow> game" where
  "ageParticle delta i s =
     (case particles s ! i of
        None \<Rightarrow> s
      | Some p \<Rightarrow>
          (let p' = p\<lparr>lifetime := lifetime p - delta\<rparr>
           in if lifetime p' \<le> 0
              then s\<lparr>particles := (particles s)[i := None]\<rparr>
              else s\<lparr>particles := (particles s)[i := Some p']\<rparr>))"

definition updateParticles :: "real \<Rightarrow> game \<Rightarrow> game" where
  "updateParticles delta s = fold (ageParticle delta) [0..<MAX_PARTICLES] s"

subsection \<open>Collisions\<close>

definition playerRect :: "Player \<Rightarrow> SDL_Rect" where
  "playerRect p = \<lparr>r_x = c_int (p_px p), r_y = c_int (p_py p), r_w = PLAYER_WIDTH, r_h = PLAYER_HEIGHT\<rparr>"

definition bulletRect :: "Bullet \<Rightarrow> SDL_Rect" where
  "bulletRect b = \<lparr>r_x = c_int (b_px b), r_y = c_int (b_py b), r_w = BULLET_WIDTH, r_h = BULLET_HEIGHT\<rparr>"

definition enemyRect :: "Enemy \<Rightarrow> SDL_Rect" where
  "enemyRect e = \<lparr>r_x = c_int (e_px e), r_y = c_int (e_py e), r_w = ENEMY_WIDTH, r_h = ENEMY_HEIGHT\<rparr>"

text \<open>The body of the loop over the enemies, for the bullet in slot \<open>i\<close> and the enemy in
  slot \<open>j\<close>; \<open>bRect\<close> was computed before the loop.\<close>

definition hitEnemy :: "SDL_Rect \<Rightarrow> nat \<Rightarrow> nat \<Rightarrow> game \<Rightarrow> game" where
  "hitEnemy bRect i j s =
     (case enemies s ! j of
        None \<Rightarrow> s
      | Some e \<Rightarrow>
          (case bullets s ! i of
             None \<Rightarrow> s
           | Some b \<Rightarrow>
               if SDL_HasIntersection bRect (enemyRect e) \<and> vy b \<noteq> 1
               then (let s1 = s\<lparr>player := (player s)\<lparr>score := score (player s) + killReward e\<rparr>\<rparr>;
                         s2 = createParticle
                                \<lparr>pt_px = of_int (r_x (enemyRect e)), pt_py = of_int (r_y (enemyRect e)),
                                 lifetime = 0.5, particleType = SHIP_EXPLOSION\<rparr> s1
                     in s2\<lparr>enemies := (enemies s2)[j := None], bullets := (bullets s2)[i := None]\<rparr>)
               else s))"

text \<open>The test against the player that follows the loop over the enemies.\<close>

definition hitPlayer :: "SDL_Rect \<Rightarrow> SDL_Rect \<Rightarrow> nat \<Rightarrow> game \<Rightarrow> game" where
  "hitPlayer pRect bRect i s =
     (case bullets s ! i of
        None \<Rightarrow> s
      | Some b \<Rightarrow>
          if SDL_HasIntersection bRect pRect \<and> vy b \<noteq> - 1
          then (let s1 = createParticle
                           \<lparr>pt_px = b_px b, pt_py = b_py b, lifetime = 0.5,
                            particleType = SHIP_EXPLOSION\<rparr> s;
                    s2 = s1\<lparr>bullets := (bullets s1)[i := None]\<rparr>;
                    s3 = s2\<lparr>player := (player s2)\<lparr>livesLeft := livesLeft (player s2) - 1\<rparr>\<rparr>;
                    s4 = (if livesLeft (player s3) \<le> 0 then s3\<lparr>gameOver := True\<rparr> else s3)
                in s4\<lparr>player := (player s4)\<lparr>
                      p_px := of_int (WINDOW_WIDTH div 2),
                      p_py := of_int (WINDOW_HEIGHT - (WINDOW_HEIGHT div 14))\<rparr>\<rparr>)
          else s)"

text \<open>The body of the loop over the bullets; \<open>pRect\<close> was computed before the loop.\<close>

definition collideBullet :: "SDL_Rect \<Rightarrow> nat \<Rightarrow> game \<Rightarrow> game" where
  "collideBullet pRect i s =
     (case bullets s ! i of
        None \<Rightarrow> s
      | Some b \<Rightarrow>
          (let bRect = bulletRect b
           in hitPlayer pRect bRect i (fold (hitEnemy bRect i) [0..<MAX_ENEMIES] s)))"

definition checkBulletCollisions :: "game \<Rightarrow> game" where
  "checkBulletCollisions s =
     fold (collideBullet (playerRect (player s))) [0..<MAX_PROJECTILES] s"

subsection \<open>Game state\<close>

text \<open>The first block of \<^verbatim>\<open>checkGameState\<close>.\<close>

definition resetGame :: "game \<Rightarrow> game" where
  "resetGame s =
     (if gameOver s
      then (let tempScore = (if score (player s) > hiScore (player s)
                             then score (player s) else hiScore (player s));
                s1 = s\<lparr>player := (createPlayer (player s))\<lparr>hiScore := tempScore\<rparr>\<rparr>;
                s2 = createEnemies (freeBullets (freeEnemies s1))
            in s2\<lparr>gameOver := False\<rparr>)
      else s)"

text \<open>The second block: the flag \<^verbatim>\<open>spawnNextWave\<close>, then the new wave.\<close>

definition spawnNextWave :: "game \<Rightarrow> bool" where
  "spawnNextWave s =
     fold (\<lambda>i flag. if enemies s ! i \<noteq> None then False else flag) [0..<MAX_ENEMIES] True"

definition nextWave :: "game \<Rightarrow> game" where
  "nextWave s =
     (if spawnNextWave s
      then (let s1 = s\<lparr>currentWave := currentWave s + 1\<rparr>;
                s2 = createEnemies (freeEnemies s1)
            in s2\<lparr>player := (player s2)\<lparr>livesLeft := 3\<rparr>\<rparr>)
      else s)"

definition checkGameState :: "game \<Rightarrow> game" where
  "checkGameState s = nextWave (resetGame s)"

subsection \<open>One frame of the game\<close>

text \<open>The branch \<^verbatim>\<open>playGame\<close> of \<^verbatim>\<open>update\<close>, without the rendering.\<close>

definition update :: "keys \<Rightarrow> (nat \<Rightarrow> int) \<Rightarrow> real \<Rightarrow> game \<Rightarrow> game" where
  "update state rnd delta s =
     checkGameState (checkBulletCollisions (enemyShoot delta rnd
       (updateParticles delta (updateEnemies delta (updateBullets delta
         (updatePlayer state delta s))))))"

text \<open>The globals as they are declared, and the state after \<^verbatim>\<open>init\<close>, which calls
  \<^verbatim>\<open>createPlayer\<close> and \<^verbatim>\<open>createEnemies\<close>.\<close>

definition globals0 :: game where
  "globals0 =
     \<lparr>player = \<lparr>p_px = 0, p_py = 0, score = 0, hiScore = 0, livesLeft = 0, p_shootTimer = 0\<rparr>,
      enemies = replicate MAX_ENEMIES None,
      bullets = replicate MAX_PROJECTILES None,
      particles = replicate MAX_PARTICLES None,
      ENEMY_SPEED_MULT = 1.0,
      enemyDir = 1,
      currentWave = 1,
      gameOver = False\<rparr>"

definition init :: game where
  "init = createEnemies (globals0\<lparr>player := createPlayer (player globals0)\<rparr>)"

text \<open>The states the game can be in: the one after \<^verbatim>\<open>init\<close>, and the one after a frame
  from such a state, whatever the keys, the values of \<^verbatim>\<open>rand()\<close> and the frame time.\<close>

inductive reachable :: "game \<Rightarrow> bool" where
  start: "reachable init"
| frame: "reachable s \<Longrightarrow> reachable (update state rnd delta s)"

text \<open>The sizes of the three arrays, which no function changes.\<close>

definition sizes :: "game \<Rightarrow> nat \<times> nat \<times> nat" where
  "sizes s = (length (enemies s), length (bullets s), length (particles s))"

text \<open>What a hit on the player changes besides the pools and the score: the position of the
  player, the lives and the game-over flag.\<close>

definition body_of_player :: "game \<Rightarrow> real \<times> real \<times> int \<times> bool" where
  "body_of_player s = (p_px (player s), p_py (player s), livesLeft (player s), gameOver s)"

text \<open>A pool in which slots have been released and nothing else has changed.\<close>

definition only_removed :: "'a option list \<Rightarrow> 'a option list \<Rightarrow> bool" where
  "only_removed old new \<longleftrightarrow> (\<forall>k. new ! k = old ! k \<or> new ! k = None)"

text \<open>Names for the parts of \<^verbatim>\<open>updateEnemies\<close>: the fields it never writes, the edge test
  of its second loop, and what its two loops do to one enemy.\<close>

definition rest_of_game :: "game \<Rightarrow> Player \<times> Bullet option list \<times> Particle option list \<times> int" where
  "rest_of_game s = (player s, bullets s, particles s, currentWave s)"

definition near_edge :: "Enemy \<Rightarrow> bool" where
  "near_edge e \<longleftrightarrow>
     e_px e < of_int (0 + ENEMY_WIDTH) \<or> e_px e > of_int (WINDOW_WIDTH - (2 * ENEMY_WIDTH))"

definition moved :: "real \<Rightarrow> game \<Rightarrow> Enemy \<Rightarrow> Enemy" where
  "moved delta s e =
     (if enemyDir s = 1
      then e\<lparr>e_px := e_px e + of_int ENEMY_SPEED * ENEMY_SPEED_MULT s * delta\<rparr>
      else e\<lparr>e_px := e_px e - of_int ENEMY_SPEED * ENEMY_SPEED_MULT s * delta\<rparr>)"

definition lowered :: "Enemy \<Rightarrow> Enemy" where
  "lowered e = e\<lparr>e_py := e_py e + of_int (ENEMY_HEIGHT div 4)\<rparr>"

text \<open>
  Names for the scan of \<^verbatim>\<open>enemyShoot\<close>. Slot \<open>k\<close> is visited when \<^verbatim>\<open>index = k\<close>, at the
  position \<^verbatim>\<open>j\<close> given by \<open>scan_pos k\<close>; \<open>first_at_pos es k\<close> says that slot \<open>k\<close> holds the first
  live enemy the scan meets at that position; \<open>shot delta e e'\<close> relates an enemy to what the
  body of the loop makes of it; \<open>visited m k\<close> says that slot \<open>k\<close> is among the first \<open>m\<close> slots
  the scan visits, and \<open>shoot_inv\<close> is the invariant of the loop after \<open>m\<close> steps.
\<close>

definition scan_pos :: "nat \<Rightarrow> nat" where
  "scan_pos k = (MAX_ENEMIES - 1 - k) mod 11"

definition first_at_pos :: "Enemy option list \<Rightarrow> nat \<Rightarrow> bool" where
  "first_at_pos es k \<longleftrightarrow>
     es ! k \<noteq> None \<and>
     (\<forall>k'. k < k' \<and> k' < MAX_ENEMIES \<and> scan_pos k' = scan_pos k \<longrightarrow> es ! k' = None)"

definition shot :: "real \<Rightarrow> Enemy \<Rightarrow> Enemy \<Rightarrow> bool" where
  "shot delta e e' \<longleftrightarrow>
     e' = e\<lparr>e_shootTimer := e_shootTimer e - delta\<rparr> \<or>
     e_shootTimer e \<le> 0 \<and> e' = e\<lparr>e_shootTimer := 1 - delta\<rparr>"

definition visited :: "nat \<Rightarrow> nat \<Rightarrow> bool" where
  "visited m k \<longleftrightarrow> MAX_ENEMIES - m \<le> k \<and> k < MAX_ENEMIES"

definition shoot_inv :: "game \<Rightarrow> real \<Rightarrow> nat \<Rightarrow> shoot_state \<Rightarrow> bool" where
  "shoot_inv s delta m = (\<lambda>(t, index, found, n).
     index = int MAX_ENEMIES - 1 - int m \<and>
     length found = 11 \<and>
     (\<forall>j<11. found ! j = 1 \<longleftrightarrow> (\<exists>k. visited m k \<and> scan_pos k = j \<and> enemies s ! k \<noteq> None)) \<and>
     length (enemies t) = MAX_ENEMIES \<and>
     (\<forall>k<MAX_ENEMIES.
        if visited m k \<and> first_at_pos (enemies s) k
        then \<exists>e e'. enemies s ! k = Some e \<and> enemies t ! k = Some e' \<and> shot delta e e'
        else enemies t ! k = enemies s ! k) \<and>
     n = card {k. visited m k \<and> first_at_pos (enemies s) k} \<and>
     live (bullets t) \<le> live (bullets s) + n)"

subsection \<open>States used as examples\<close>

text \<open>A lost game in wave 2 with score 150 and high score 200, and a cleared wave.\<close>

definition lost_game :: game where
  "lost_game =
     \<lparr>player = \<lparr>p_px = 75.5, p_py = 446, score = 150, hiScore = 200, livesLeft = 0, p_shootTimer = 0.4\<rparr>,
      enemies = (replicate MAX_ENEMIES None)[7 := Some \<lparr>e_px = 380, e_py = 100, killReward = 20, e_shootTimer = 0.9\<rparr>],
      bullets = (replicate MAX_PROJECTILES None)[0 := Some \<lparr>b_px = 300, b_py = 200, vy = 1\<rparr>],
      particles = replicate MAX_PARTICLES None,
      ENEMY_SPEED_MULT = 1.05,
      enemyDir = - 1,
      currentWave = 2,
      gameOver = True\<rparr>"

definition cleared_wave :: game where
  "cleared_wave =
     \<lparr>player = \<lparr>p_px = 75.5, p_py = 446, score = 550, hiScore = 200, livesLeft = 1, p_shootTimer = 0.4\<rparr>,
      enemies = replicate MAX_ENEMIES None,
      bullets = (replicate MAX_PROJECTILES None)[0 := Some \<lparr>b_px = 300, b_py = 200, vy = 1\<rparr>],
      particles = replicate MAX_PARTICLES None,
      ENEMY_SPEED_MULT = 1.05,
      enemyDir = - 1,
      currentWave = 2,
      gameOver = False\<rparr>"

text \<open>A state whose bullet and particle pools have no free slot.\<close>

definition full_pools :: game where
  "full_pools = globals0
     \<lparr>bullets := replicate MAX_PROJECTILES (Some \<lparr>b_px = 300, b_py = 200, vy = 1\<rparr>),
      particles := replicate MAX_PARTICLES
        (Some \<lparr>pt_px = 10, pt_py = 10, lifetime = 0.3, particleType = BULLET_EXPLOSION\<rparr>)\<rparr>"

text \<open>The state after \<^verbatim>\<open>init\<close> once the player has fired, and once the enemy of slot 0 has
  fired: each new bullet overlaps the ship it leaves.\<close>

definition player_shot :: game where
  "player_shot = createBullet 320 446 (- 1) init"

definition enemy_shot :: game where
  "enemy_shot = createBullet 100 100 1 init"

text \<open>An enemy bullet over the player who has one life left; and the same hit with three
  lives, a full particle pool and the game-over flag already set by \<^verbatim>\<open>updateEnemies\<close>.\<close>

definition last_life :: game where
  "last_life = init
     \<lparr>player := \<lparr>p_px = 100, p_py = 446, score = 150, hiScore = 200, livesLeft = 1, p_shootTimer = 0.4\<rparr>,
      bullets := (replicate MAX_PROJECTILES None)[0 := Some \<lparr>b_px = 105, b_py = 450, vy = 1\<rparr>]\<rparr>"

definition crowded_hit :: game where
  "crowded_hit = init
     \<lparr>player := \<lparr>p_px = 100, p_py = 446, score = 150, hiScore = 200, livesLeft = 3, p_shootTimer = 0.4\<rparr>,
      bullets := (replicate MAX_PROJECTILES None)[0 := Some \<lparr>b_px = 105, b_py = 450, vy = 1\<rparr>],
      particles := replicate MAX_PARTICLES
        (Some \<lparr>pt_px = 10, pt_py = 10, lifetime = 0.3, particleType = BULLET_EXPLOSION\<rparr>),
      gameOver := True\<rparr>"






text \<open>A formation that reaches the left edge within the next frame of 20 ms, and the first
  wave without the enemy of slot 54.\<close>

definition at_left_edge :: game where
  "at_left_edge = init
     \<lparr>enemies := map (\<lambda>i. Some ((newEnemy 1 i)\<lparr>e_px := e_px (newEnemy 1 i) - 70.6\<rparr>)) [0..<MAX_ENEMIES],
      enemyDir := - 1\<rparr>"

definition thinned :: game where
  "thinned = init\<lparr>enemies := (enemies init)[54 := None]\<rparr>"

section \<open>Loops over the pools\<close>

lemma fold_list_update_length:
  "length (fold (\<lambda>i xs. xs[i := f i]) js xs) = length xs"
  by (induction js arbitrary: xs) auto

lemma fold_list_update_nth:
  "k < length xs \<Longrightarrow>
   fold (\<lambda>i xs. xs[i := f i]) [0..<n] xs ! k = (if k < n then f k else xs ! k)"
  by (induction n) (auto simp: fold_list_update_length nth_list_update less_Suc_eq)

lemma fold_list_update_all:
  "length xs = n \<Longrightarrow> fold (\<lambda>i xs. xs[i := f i]) [0..<n] xs = map f [0..<n]"
  by (rule nth_equalityI) (simp_all add: fold_list_update_length fold_list_update_nth)

lemma fold_enemies_update:
  "fold (\<lambda>i t. t\<lparr>enemies := (enemies t)[i := f i]\<rparr>) js s =
   s\<lparr>enemies := fold (\<lambda>i xs. xs[i := f i]) js (enemies s)\<rparr>"
  by (induction js arbitrary: s) auto

lemma fold_bullets_update:
  "fold (\<lambda>i t. t\<lparr>bullets := (bullets t)[i := f i]\<rparr>) js s =
   s\<lparr>bullets := fold (\<lambda>i xs. xs[i := f i]) js (bullets s)\<rparr>"
  by (induction js arbitrary: s) auto

lemma fold_particles_update:
  "fold (\<lambda>i t. t\<lparr>particles := (particles t)[i := f i]\<rparr>) js s =
   s\<lparr>particles := fold (\<lambda>i xs. xs[i := f i]) js (particles s)\<rparr>"
  by (induction js arbitrary: s) auto

lemma freeEnemies_eq:
  "length (enemies s) = MAX_ENEMIES \<Longrightarrow> freeEnemies s = s\<lparr>enemies := replicate MAX_ENEMIES None\<rparr>"
  by (simp add: freeEnemies_def fold_enemies_update fold_list_update_all map_replicate_const)

lemma freeBullets_eq:
  "length (bullets s) = MAX_PROJECTILES \<Longrightarrow> freeBullets s = s\<lparr>bullets := replicate MAX_PROJECTILES None\<rparr>"
  by (simp add: freeBullets_def fold_bullets_update fold_list_update_all map_replicate_const)

lemma createEnemies_fold:
  "fold (\<lambda>i t. t\<lparr>enemies := (enemies t)[i := Some (newEnemy (currentWave t) i)]\<rparr>) js s =
   s\<lparr>enemies := fold (\<lambda>i xs. xs[i := Some (newEnemy (currentWave s) i)]) js (enemies s)\<rparr>"
  by (induction js arbitrary: s) auto

lemma createEnemies_eq:
  "length (enemies s) = MAX_ENEMIES \<Longrightarrow>
   createEnemies s = s\<lparr>enemies := map (\<lambda>i. Some (newEnemy (currentWave s) i)) [0..<MAX_ENEMIES]\<rparr>"
  by (simp add: createEnemies_def createEnemies_fold fold_list_update_all)

lemma spawnNextWave_fold:
  "fold (\<lambda>i flag. if es ! i \<noteq> None then False else flag) [0..<n] b \<longleftrightarrow>
   b \<and> (\<forall>i<n. es ! i = None)"
  by (induction n arbitrary: b) (auto simp: less_Suc_eq)

lemma spawnNextWave_iff: "spawnNextWave s \<longleftrightarrow> (\<forall>i<MAX_ENEMIES. enemies s ! i = None)"
  unfolding spawnNextWave_def by (simp only: spawnNextWave_fold simp_thms)

lemma install_full: "\<forall>k\<in>set js. pool ! k \<noteq> None \<Longrightarrow> install js v pool = pool"
  by (induction js) auto

lemma install_append:
  "\<forall>k\<in>set js. pool ! k \<noteq> None \<Longrightarrow> pool ! i = None \<Longrightarrow>
   install (js @ i # rest) v pool = pool[i := Some v]"
  by (induction js) auto

lemma install_first:
  assumes "i < n" and "pool ! i = None" and "\<forall>k<i. pool ! k \<noteq> None"
  shows "install [0..<n] v pool = pool[i := Some v]"
proof -
  have "[0..<n] = [0..<i] @ [i..<n]"
    using assms(1) upt_add_eq_append [of 0 i "n - i"] by simp
  then have "[0..<n] = [0..<i] @ i # [Suc i..<n]"
    using assms(1) by (simp add: upt_conv_Cons)
  moreover have "\<forall>k\<in>set [0..<i]. pool ! k \<noteq> None"
    using assms(3) by simp
  ultimately show ?thesis
    using assms(2) by (simp add: install_append)
qed

lemma length_install [simp]: "length (install js v pool) = length pool"
  by (induction js) auto

lemma live_le_length: "live pool \<le> length pool"
  by (simp add: live_def)

lemma install_cases:
  "install js v pool = pool \<or> (\<exists>i\<in>set js. pool ! i = None \<and> install js v pool = pool[i := Some v])"
  by (induction js) auto

section \<open>The game-state check\<close>

lemma length_createEnemies [simp]: "length (enemies (createEnemies s)) = length (enemies s)"
  by (simp add: createEnemies_def createEnemies_fold fold_list_update_length)

lemma resetGame_eq:
  assumes "pools_ok s" "gameOver s"
  shows "resetGame s =
    s\<lparr>player := (createPlayer (player s))\<lparr>hiScore := max (hiScore (player s)) (score (player s))\<rparr>,
      enemies := map (\<lambda>i. Some (newEnemy (currentWave s) i)) [0..<MAX_ENEMIES],
      bullets := replicate MAX_PROJECTILES None,
      gameOver := False\<rparr>"
proof -
  let ?p = "(createPlayer (player s))\<lparr>hiScore := max (hiScore (player s)) (score (player s))\<rparr>"
  have len: "length (enemies s) = MAX_ENEMIES" "length (bullets s) = MAX_PROJECTILES"
    using assms(1) by (simp_all add: pools_ok_def)
  have t: "(if score (player s) > hiScore (player s) then score (player s) else hiScore (player s))
           = max (hiScore (player s)) (score (player s))"
    by (simp add: max_def)
  have "freeBullets (freeEnemies (s\<lparr>player := ?p\<rparr>)) =
        s\<lparr>player := ?p, enemies := replicate MAX_ENEMIES None, bullets := replicate MAX_PROJECTILES None\<rparr>"
    using len by (simp add: freeEnemies_eq freeBullets_eq)
  then have "createEnemies (freeBullets (freeEnemies (s\<lparr>player := ?p\<rparr>))) =
        s\<lparr>player := ?p, enemies := map (\<lambda>i. Some (newEnemy (currentWave s) i)) [0..<MAX_ENEMIES],
          bullets := replicate MAX_PROJECTILES None\<rparr>"
    by (simp add: createEnemies_eq)
  then show ?thesis
    using assms(2) unfolding resetGame_def Let_def t by simp
qed

lemma spawnNextWave_resetGame:
  assumes "pools_ok s" "gameOver s"
  shows "\<not> spawnNextWave (resetGame s)"
proof -
  have "enemies (resetGame s) ! 0 \<noteq> None"
    by (simp add: resetGame_eq [OF assms] MAX_ENEMIES_def upt_conv_Cons)
  then show ?thesis
    unfolding spawnNextWave_iff by (auto simp: MAX_ENEMIES_def intro!: exI [of _ 0])
qed

lemma nextWave_eq:
  assumes "length (enemies s) = MAX_ENEMIES" "spawnNextWave s"
  shows "nextWave s =
    s\<lparr>currentWave := currentWave s + 1,
      enemies := map (\<lambda>i. Some (newEnemy (currentWave s + 1) i)) [0..<MAX_ENEMIES],
      player := (player s)\<lparr>livesLeft := 3\<rparr>\<rparr>"
proof -
  have "createEnemies (freeEnemies (s\<lparr>currentWave := currentWave s + 1\<rparr>)) =
    s\<lparr>currentWave := currentWave s + 1,
      enemies := map (\<lambda>i. Some (newEnemy (currentWave s + 1) i)) [0..<MAX_ENEMIES]\<rparr>"
    using assms(1) by (simp add: freeEnemies_eq createEnemies_eq)
  then show ?thesis
    using assms(2) unfolding nextWave_def Let_def by simp
qed

section \<open>The sizes of the pools\<close>

lemma pools_ok_sizes: "pools_ok s \<longleftrightarrow> sizes s = (MAX_ENEMIES, MAX_PROJECTILES, MAX_PARTICLES)"
  by (auto simp: pools_ok_def sizes_def)

lemma fold_sizes:
  "(\<And>i t. sizes (f i t) = sizes t) \<Longrightarrow> sizes (fold f js s) = sizes s"
  by (induction js arbitrary: s) simp_all

lemma sizes_createBullet [simp]: "sizes (createBullet bx by dir s) = sizes s"
  by (simp add: createBullet_def sizes_def)

lemma sizes_createParticle [simp]: "sizes (createParticle p s) = sizes s"
  by (simp add: createParticle_def sizes_def)

lemma sizes_updatePlayer [simp]: "sizes (updatePlayer state delta s) = sizes s"
proof -
  have "sizes (t\<lparr>player := p\<rparr>) = sizes t" for t p
    by (simp add: sizes_def)
  then show ?thesis
    by (simp add: updatePlayer_def Let_def)
qed

lemma sizes_moveBullet [simp]: "sizes (moveBullet delta i s) = sizes s"
proof (cases "bullets s ! i")
  case None
  then show ?thesis by (simp add: moveBullet_def)
next
  case (Some b)
  have a: "sizes (t\<lparr>bullets := (bullets t)[i := v]\<rparr>) = sizes t" for t v
    by (simp add: sizes_def)
  have b: "sizes (s\<lparr>bullets := (bullets s)[i := v]\<rparr>) = sizes s" for v
    by (simp add: sizes_def)
  show ?thesis
    using Some by (simp add: moveBullet_def Let_def a b)
qed

lemma sizes_updateBullets [simp]: "sizes (updateBullets delta s) = sizes s"
  by (simp add: updateBullets_def fold_sizes)

lemma sizes_moveEnemy [simp]: "sizes (moveEnemy delta i s) = sizes s"
  by (simp add: moveEnemy_def sizes_def Let_def split: option.split)

lemma sizes_lowerEnemy [simp]: "sizes (lowerEnemy i s) = sizes s"
  by (simp add: lowerEnemy_def sizes_def split: option.split)

lemma sizes_reverseEnemies [simp]: "sizes (reverseEnemies s) = sizes s"
proof -
  have "sizes (fold lowerEnemy [0..<MAX_ENEMIES] (s\<lparr>enemyDir := - enemyDir s\<rparr>)) = sizes s"
    by (simp add: fold_sizes) (simp add: sizes_def)
  then show ?thesis
    by (simp add: reverseEnemies_def Let_def sizes_def)
qed

lemma sizes_edgeCheck [simp]: "sizes (edgeCheck js s) = sizes s"
  by (induction js) (simp_all split: option.split)

lemma sizes_updateEnemies [simp]: "sizes (updateEnemies delta s) = sizes s"
  by (simp add: updateEnemies_def fold_sizes)

lemma sizes_ageParticle [simp]: "sizes (ageParticle delta i s) = sizes s"
  by (simp add: ageParticle_def sizes_def Let_def split: option.split)

lemma sizes_updateParticles [simp]: "sizes (updateParticles delta s) = sizes s"
  by (simp add: updateParticles_def fold_sizes)

lemma sizes_shootStep [simp]: "sizes (fst (shootStep delta rnd j st)) = sizes (fst st)"
proof -
  obtain s index found n where st: "st = (s, index, found, n)"
    by (cases st) auto
  have a: "sizes (t\<lparr>enemies := (enemies t)[k := v]\<rparr>) = sizes t" for t k v
    by (simp add: sizes_def)
  show ?thesis
    by (simp add: st shootStep_def Let_def a split: option.split)
qed

lemma fold_fst_sizes:
  "(\<And>i st. sizes (fst (f i st)) = sizes (fst st)) \<Longrightarrow> sizes (fst (fold f js st)) = sizes (fst st)"
  by (induction js arbitrary: st) simp_all

lemma sizes_enemyShoot [simp]: "sizes (enemyShoot delta rnd s) = sizes s"
  by (simp add: enemyShoot_def fold_fst_sizes)

lemma sizes_hitEnemy [simp]: "sizes (hitEnemy bRect i j s) = sizes s"
proof -
  have a: "sizes (t\<lparr>enemies := (enemies t)[j := v], bullets := (bullets t)[i := w]\<rparr>) = sizes t" for t v w
    by (simp add: sizes_def)
  have b: "sizes (t\<lparr>player := p\<rparr>) = sizes t" for t p
    by (simp add: sizes_def)
  show ?thesis
    by (simp add: hitEnemy_def Let_def a b split: option.split)
qed

lemma sizes_hitPlayer [simp]: "sizes (hitPlayer pRect bRect i s) = sizes s"
proof -
  have a: "sizes (t\<lparr>bullets := (bullets t)[i := w]\<rparr>) = sizes t" for t w
    by (simp add: sizes_def)
  have b: "sizes (t\<lparr>player := p\<rparr>) = sizes t" for t p
    by (simp add: sizes_def)
  have c: "sizes (t\<lparr>gameOver := g\<rparr>) = sizes t" for t g
    by (simp add: sizes_def)
  show ?thesis
    by (simp add: hitPlayer_def Let_def a b c split: option.split)
qed

lemma sizes_collideBullet [simp]: "sizes (collideBullet pRect i s) = sizes s"
  by (simp add: collideBullet_def Let_def fold_sizes split: option.split)

lemma sizes_checkBulletCollisions [simp]: "sizes (checkBulletCollisions s) = sizes s"
  by (simp add: checkBulletCollisions_def fold_sizes)

lemma sizes_freeEnemies [simp]: "sizes (freeEnemies s) = sizes s"
  unfolding freeEnemies_def by (rule fold_sizes) (simp add: sizes_def)

lemma sizes_freeBullets [simp]: "sizes (freeBullets s) = sizes s"
  unfolding freeBullets_def by (rule fold_sizes) (simp add: sizes_def)

lemma sizes_createEnemies [simp]: "sizes (createEnemies s) = sizes s"
  unfolding createEnemies_def by (rule fold_sizes) (simp add: sizes_def)

lemma sizes_resetGame [simp]: "sizes (resetGame s) = sizes s"
proof -
  have a: "sizes (t\<lparr>gameOver := g\<rparr>) = sizes t" for t g
    by (simp add: sizes_def)
  have b: "sizes (t\<lparr>player := p\<rparr>) = sizes t" for t p
    by (simp add: sizes_def)
  show ?thesis
    by (simp add: resetGame_def Let_def a b)
qed

lemma sizes_nextWave [simp]: "sizes (nextWave s) = sizes s"
proof -
  have a: "sizes (t\<lparr>currentWave := g\<rparr>) = sizes t" for t g
    by (simp add: sizes_def)
  have b: "sizes (t\<lparr>player := p\<rparr>) = sizes t" for t p
    by (simp add: sizes_def)
  show ?thesis
    by (simp add: nextWave_def Let_def a b)
qed

lemma sizes_checkGameState [simp]: "sizes (checkGameState s) = sizes s"
  by (simp add: checkGameState_def)

lemma sizes_update [simp]: "sizes (update state rnd delta s) = sizes s"
  by (simp add: update_def)

lemma pools_ok_init: "pools_ok init"
  by (simp add: pools_ok_sizes init_def) (simp add: sizes_def globals0_def)

lemma createBullet_first:
  assumes "i < MAX_PROJECTILES" "bullets s ! i = None" "\<forall>k<i. bullets s ! k \<noteq> None"
  shows "createBullet bx by dir s = s\<lparr>bullets := (bullets s)[i := Some (newBullet bx by dir)]\<rparr>"
  by (simp add: createBullet_def install_first [OF assms])

lemma createBullet_full:
  assumes "\<forall>k<MAX_PROJECTILES. bullets s ! k \<noteq> None"
  shows "createBullet bx by dir s = s"
  using assms by (simp add: createBullet_def install_full)

lemma Particle_copy:
  "\<lparr>pt_px = pt_px p, pt_py = pt_py p, lifetime = lifetime p, particleType = particleType p\<rparr> = p"
  by (cases p) simp

lemma createParticle_first:
  assumes "i < MAX_PARTICLES" "particles s ! i = None" "\<forall>k<i. particles s ! k \<noteq> None"
  shows "createParticle p s = s\<lparr>particles := (particles s)[i := Some p]\<rparr>"
  by (simp add: createParticle_def Particle_copy install_first [OF assms])

lemma createParticle_full:
  assumes "\<forall>k<MAX_PARTICLES. particles s ! k \<noteq> None"
  shows "createParticle p s = s"
  using assms by (simp add: createParticle_def install_full)

lemma first_free_slot:
  assumes "pool ! i = None"
  shows "\<exists>k\<le>i. pool ! k = None \<and> (\<forall>j<k. pool ! j \<noteq> None)"
proof -
  define k where "k = (LEAST k. pool ! k = None)"
  have "pool ! k = None"
    unfolding k_def using assms by (rule LeastI)
  moreover have "k \<le> i"
    unfolding k_def using assms by (rule Least_le)
  moreover have "\<forall>j<k. pool ! j \<noteq> None"
    unfolding k_def using not_less_Least by blast
  ultimately show ?thesis by blast
qed

lemma reachable_pools_ok: "reachable s \<Longrightarrow> pools_ok s"
proof (induction rule: reachable.induct)
  case start
  show ?case by (rule pools_ok_init)
next
  case (frame s state rnd delta)
  then show ?case by (simp add: pools_ok_sizes)
qed

section \<open>What the steps of a frame leave unchanged\<close>

lemma fold_keeps:
  "(\<And>i t. g (f i t) = g t) \<Longrightarrow> g (fold f js s) = g s"
  by (induction js arbitrary: s) simp_all

lemma player_createParticle [simp]: "player (createParticle p s) = player s"
  by (simp add: createParticle_def)

lemma player_createBullet [simp]: "player (createBullet bx by dir s) = player s"
  by (simp add: createBullet_def)

lemma player_moveBullet [simp]: "player (moveBullet delta i s) = player s"
  by (simp add: moveBullet_def Let_def split: option.split)

lemma player_updateBullets [simp]: "player (updateBullets delta s) = player s"
  unfolding updateBullets_def by (rule fold_keeps) simp

lemma player_moveEnemy [simp]: "player (moveEnemy delta i s) = player s"
  by (simp add: moveEnemy_def Let_def split: option.split)

lemma player_lowerEnemy [simp]: "player (lowerEnemy i s) = player s"
  by (simp add: lowerEnemy_def split: option.split)

lemma player_reverseEnemies [simp]: "player (reverseEnemies s) = player s"
proof -
  have "player (fold lowerEnemy [0..<MAX_ENEMIES] (s\<lparr>enemyDir := - enemyDir s\<rparr>)) =
        player (s\<lparr>enemyDir := - enemyDir s\<rparr>)"
    by (rule fold_keeps) simp
  then show ?thesis
    by (simp add: reverseEnemies_def Let_def)
qed

lemma player_edgeCheck [simp]: "player (edgeCheck js s) = player s"
  by (induction js) (simp_all split: option.split)

lemma player_updateEnemies [simp]: "player (updateEnemies delta s) = player s"
proof -
  have "player (fold (moveEnemy delta) [0..<MAX_ENEMIES] s) = player s"
    by (rule fold_keeps) simp
  then show ?thesis
    by (simp add: updateEnemies_def)
qed

lemma player_ageParticle [simp]: "player (ageParticle delta i s) = player s"
  by (simp add: ageParticle_def Let_def split: option.split)

lemma player_updateParticles [simp]: "player (updateParticles delta s) = player s"
  unfolding updateParticles_def by (rule fold_keeps) simp

lemma player_shootStep [simp]: "player (fst (shootStep delta rnd j st)) = player (fst st)"
  by (cases st) (simp add: shootStep_def Let_def split: option.split)

lemma fold_fst_keeps:
  "(\<And>i st. g (fst (f i st)) = g (fst st)) \<Longrightarrow> g (fst (fold f js st)) = g (fst st)"
  by (induction js arbitrary: st) simp_all

lemma player_enemyShoot [simp]: "player (enemyShoot delta rnd s) = player s"
proof -
  have inner: "player (fst (fold (shootStep delta rnd) [0..<11] st)) = player (fst st)" for st
    by (rule fold_fst_keeps) simp
  have "player (fst (fold (\<lambda>i st. fold (shootStep delta rnd) [0..<11] st) [0..<5] st)) = player (fst st)" for st
    by (rule fold_fst_keeps) (rule inner)
  then show ?thesis
    by (simp add: enemyShoot_def)
qed




section \<open>Binary32 rounding\<close>

declare bits.simps [simp del]
















section \<open>Collisions\<close>

lemma only_removed_refl [simp]: "only_removed pool pool"
  by (simp add: only_removed_def)

lemma only_removed_trans: "only_removed a b \<Longrightarrow> only_removed b c \<Longrightarrow> only_removed a c"
  unfolding only_removed_def by metis

lemma only_removed_update [simp]: "only_removed pool (pool[i := None])"
proof (cases "i < length pool")
  case True
  then show ?thesis by (simp add: only_removed_def nth_list_update)
next
  case False
  then have "pool[i := None] = pool" by (simp add: list_update_beyond)
  then show ?thesis by simp
qed

lemma fold_only_removed:
  assumes "\<And>i t. only_removed (g t) (g (f i t))"
  shows "only_removed (g s) (g (fold f js s))"
proof (induction js arbitrary: s)
  case Nil
  show ?case by simp
next
  case (Cons j js)
  show ?case
    using assms [of s j] Cons [of "f j s"] by (auto intro: only_removed_trans)
qed

lemma hitEnemy_noop:
  "bullets s ! i = Some b \<Longrightarrow> vy b = 1 \<Longrightarrow> hitEnemy bRect i j s = s"
  by (simp add: hitEnemy_def split: option.split)

lemma fold_hitEnemy_noop:
  "bullets s ! i = Some b \<Longrightarrow> vy b = 1 \<Longrightarrow> fold (hitEnemy bRect i) js s = s"
  by (induction js) (simp_all add: hitEnemy_noop)

lemma hitPlayer_noop:
  "bullets s ! i = None \<or> (\<exists>b. bullets s ! i = Some b \<and> vy b = - 1) \<Longrightarrow>
   hitPlayer pRect bRect i s = s"
  by (auto simp: hitPlayer_def)

lemma bullets_createParticle [simp]: "bullets (createParticle p s) = bullets s"
  by (simp add: createParticle_def)

lemma enemies_createParticle [simp]: "enemies (createParticle p s) = enemies s"
  by (simp add: createParticle_def)

lemma gameOver_createParticle [simp]: "gameOver (createParticle p s) = gameOver s"
  by (simp add: createParticle_def)

lemma hitEnemy_bullets: "only_removed (bullets s) (bullets (hitEnemy bRect i j s))"
  by (simp add: hitEnemy_def Let_def split: option.split)

lemma fold_hitEnemy_bullets:
  "only_removed (bullets s) (bullets (fold (hitEnemy bRect i) js s))"
  by (rule fold_only_removed) (rule hitEnemy_bullets)

lemma hitEnemy_body: "body_of_player (hitEnemy bRect i j s) = body_of_player s"
  by (simp add: hitEnemy_def body_of_player_def Let_def split: option.split)

lemma fold_hitEnemy_body: "body_of_player (fold (hitEnemy bRect i) js s) = body_of_player s"
  by (rule fold_keeps) (rule hitEnemy_body)

lemma hitPlayer_hit:
  assumes "bullets s ! i = Some b" "SDL_HasIntersection bRect pRect" "vy b \<noteq> - 1"
  shows "hitPlayer pRect bRect i s =
    (createParticle \<lparr>pt_px = b_px b, pt_py = b_py b, lifetime = 0.5, particleType = SHIP_EXPLOSION\<rparr> s)
      \<lparr>bullets := (bullets s)[i := None],
       player := (player s)\<lparr>livesLeft := livesLeft (player s) - 1, p_px := 320, p_py := 446\<rparr>,
       gameOver := (gameOver s \<or> livesLeft (player s) - 1 \<le> 0)\<rparr>"
  using assms by (simp add: hitPlayer_def Let_def WINDOW_WIDTH_def WINDOW_HEIGHT_def)

lemma hitPlayer_miss:
  assumes "bullets s ! i = Some b" "\<not> SDL_HasIntersection bRect pRect"
  shows "hitPlayer pRect bRect i s = s"
  using assms by (simp add: hitPlayer_def)


lemma hitPlayer_bullets: "only_removed (bullets s) (bullets (hitPlayer pRect bRect i s))"
  by (simp add: hitPlayer_def Let_def split: option.split)

lemma hitPlayer_enemies: "enemies (hitPlayer pRect bRect i s) = enemies s"
  by (simp add: hitPlayer_def Let_def split: option.split)

lemma hitPlayer_score: "score (player (hitPlayer pRect bRect i s)) = score (player s)"
  by (simp add: hitPlayer_def Let_def split: option.split)

lemma collideBullet_bullets: "only_removed (bullets s) (bullets (collideBullet pRect i s))"
proof (cases "bullets s ! i")
  case None
  then show ?thesis by (simp add: collideBullet_def)
next
  case (Some b)
  show ?thesis
    using fold_hitEnemy_bullets hitPlayer_bullets
    by (simp add: collideBullet_def Some Let_def) (blast intro: only_removed_trans)
qed

lemma only_removed_Some: "only_removed old new \<Longrightarrow> new ! k = Some v \<Longrightarrow> old ! k = Some v"
  by (metis only_removed_def option.distinct(1))

lemma only_removed_cases: "only_removed old new \<Longrightarrow> old ! k = Some v \<Longrightarrow> new ! k = None \<or> new ! k = Some v"
  by (metis only_removed_def)

lemma collideBullet_None: "bullets s ! i = None \<Longrightarrow> collideBullet pRect i s = s"
  by (simp add: collideBullet_def)

lemma collideBullet_down:
  assumes "bullets s ! i = Some b" "vy b = 1"
  shows "collideBullet pRect i s = hitPlayer pRect (bulletRect b) i s"
  using assms by (simp add: collideBullet_def Let_def fold_hitEnemy_noop)

lemma collideBullet_up:
  assumes "bullets s ! i = Some b" "vy b = - 1"
  shows "collideBullet pRect i s = fold (hitEnemy (bulletRect b) i) [0..<MAX_ENEMIES] s"
proof -
  let ?t = "fold (hitEnemy (bulletRect b) i) [0..<MAX_ENEMIES] s"
  have "only_removed (bullets s) (bullets ?t)"
    by (rule fold_hitEnemy_bullets)
  then have "bullets ?t ! i = None \<or> bullets ?t ! i = Some b"
    using assms(1) by (rule only_removed_cases)
  then have "bullets ?t ! i = None \<or> (\<exists>c. bullets ?t ! i = Some c \<and> vy c = - 1)"
    using assms(2) by auto
  then have "hitPlayer pRect (bulletRect b) i ?t = ?t"
    by (rule hitPlayer_noop)
  then show ?thesis
    using assms by (simp add: collideBullet_def Let_def)
qed

lemma collideBullet_up_body:
  assumes "bullets s ! i = Some b" "vy b = - 1"
  shows "body_of_player (collideBullet pRect i s) = body_of_player s"
  by (simp add: collideBullet_up [OF assms] fold_hitEnemy_body)

lemma checkBulletCollisions_all_up:
  assumes "\<forall>i<MAX_PROJECTILES. \<forall>b. bullets s ! i = Some b \<longrightarrow> vy b = - 1"
  shows "body_of_player (checkBulletCollisions s) = body_of_player s"
proof -
  let ?P = "\<lambda>t::game. body_of_player t = body_of_player s \<and> only_removed (bullets s) (bullets t)"
  have "?P (fold (collideBullet (playerRect (player s))) [0..<MAX_PROJECTILES] s)"
  proof (rule fold_invariant [where Q = "\<lambda>i. i < MAX_PROJECTILES" and P = ?P])
    show "\<And>x. x \<in> set [0..<MAX_PROJECTILES] \<Longrightarrow> x < MAX_PROJECTILES" by simp
    show "?P s" by simp
  next
    fix i t
    assume i: "i < MAX_PROJECTILES" and t: "?P t"
    show "?P (collideBullet (playerRect (player s)) i t)"
    proof (cases "bullets t ! i")
      case None
      then show ?thesis using t by (simp add: collideBullet_None)
    next
      case (Some b)
      then have "bullets s ! i = Some b"
        using t only_removed_Some [of "bullets s" "bullets t" i b] by simp
      then have up: "vy b = - 1"
        using assms i by blast
      have "only_removed (bullets t) (bullets (collideBullet (playerRect (player s)) i t))"
        by (rule collideBullet_bullets)
      with t have "only_removed (bullets s) (bullets (collideBullet (playerRect (player s)) i t))"
        using only_removed_trans by blast
      then show ?thesis
        using t collideBullet_up_body [OF Some up] by simp
    qed
  qed
  then show ?thesis
    by (simp add: checkBulletCollisions_def)
qed

lemma checkBulletCollisions_all_down:
  assumes "\<forall>i<MAX_PROJECTILES. \<forall>b. bullets s ! i = Some b \<longrightarrow> vy b = 1"
  shows "enemies (checkBulletCollisions s) = enemies s
       \<and> score (player (checkBulletCollisions s)) = score (player s)"
proof -
  let ?P = "\<lambda>t::game. enemies t = enemies s \<and> score (player t) = score (player s)
                \<and> only_removed (bullets s) (bullets t)"
  have "?P (fold (collideBullet (playerRect (player s))) [0..<MAX_PROJECTILES] s)"
  proof (rule fold_invariant [where Q = "\<lambda>i. i < MAX_PROJECTILES" and P = ?P])
    show "\<And>x. x \<in> set [0..<MAX_PROJECTILES] \<Longrightarrow> x < MAX_PROJECTILES" by simp
    show "?P s" by simp
  next
    fix i t
    assume i: "i < MAX_PROJECTILES" and t: "?P t"
    show "?P (collideBullet (playerRect (player s)) i t)"
    proof (cases "bullets t ! i")
      case None
      then show ?thesis using t by (simp add: collideBullet_None)
    next
      case (Some b)
      then have "bullets s ! i = Some b"
        using t only_removed_Some [of "bullets s" "bullets t" i b] by simp
      then have down: "vy b = 1"
        using assms i by blast
      have "only_removed (bullets t) (bullets (collideBullet (playerRect (player s)) i t))"
        by (rule collideBullet_bullets)
      with t have "only_removed (bullets s) (bullets (collideBullet (playerRect (player s)) i t))"
        using only_removed_trans by blast
      then show ?thesis
        using t by (simp add: collideBullet_down [OF Some down] hitPlayer_enemies hitPlayer_score)
    qed
  qed
  then show ?thesis
    by (simp add: checkBulletCollisions_def)
qed

lemma init_eq:
  "init =
     \<lparr>player = \<lparr>p_px = 320, p_py = 446, score = 0, hiScore = 0, livesLeft = 3, p_shootTimer = 0\<rparr>,
      enemies = map (\<lambda>i. Some (newEnemy 1 i)) [0..<MAX_ENEMIES],
      bullets = replicate MAX_PROJECTILES None,
      particles = replicate MAX_PARTICLES None,
      ENEMY_SPEED_MULT = 1,
      enemyDir = 1,
      currentWave = 1,
      gameOver = False\<rparr>"
  by (simp add: init_def createEnemies_eq globals0_def createPlayer_def WINDOW_WIDTH_def WINDOW_HEIGHT_def)

lemma player_shot_eq:
  "player_shot = init\<lparr>bullets := (replicate MAX_PROJECTILES None)[0 := Some \<lparr>b_px = 330, b_py = 456, vy = - 1\<rparr>]\<rparr>"
proof -
  have "createBullet 320 446 (- 1) init = init\<lparr>bullets := (bullets init)[0 := Some (newBullet 320 446 (- 1))]\<rparr>"
    by (rule createBullet_first) (simp_all add: init_eq MAX_PROJECTILES_def)
  then show ?thesis
    by (simp add: player_shot_def newBullet_def constants) (simp add: init_eq constants)
qed

lemma enemy_shot_eq:
  "enemy_shot = init\<lparr>bullets := (replicate MAX_PROJECTILES None)[0 := Some \<lparr>b_px = 115, b_py = 115, vy = 1\<rparr>]\<rparr>"
proof -
  have "createBullet 100 100 1 init = init\<lparr>bullets := (bullets init)[0 := Some (newBullet 100 100 1)]\<rparr>"
    by (rule createBullet_first) (simp_all add: init_eq MAX_PROJECTILES_def)
  then show ?thesis
    by (simp add: enemy_shot_def newBullet_def constants) (simp add: init_eq constants)
qed

lemma c_int_of_int [simp]: "c_int (of_int n) = n"
  by (simp add: c_int_def)

lemma c_int_numeral [simp]: "c_int (numeral n) = numeral n"
  by (simp add: c_int_def)

lemma fold_collideBullet_None:
  "\<forall>k\<in>set js. bullets s ! k = None \<Longrightarrow> fold (collideBullet pRect) js s = s"
  by (induction js) (simp_all add: collideBullet_None)

lemma checkBulletCollisions_slot0:
  assumes "\<forall>k<MAX_PROJECTILES. 0 < k \<longrightarrow> bullets s ! k = None"
  shows "checkBulletCollisions s = collideBullet (playerRect (player s)) 0 s"
proof -
  let ?t = "collideBullet (playerRect (player s)) 0 s"
  have "only_removed (bullets s) (bullets ?t)"
    by (rule collideBullet_bullets)
  then have "bullets ?t ! k = None" if "0 < k" "k < MAX_PROJECTILES" for k
    using assms that by (metis only_removed_def)
  then have "\<forall>k\<in>set [1..<MAX_PROJECTILES]. bullets ?t ! k = None"
    by simp
  then have "fold (collideBullet (playerRect (player s))) [1..<MAX_PROJECTILES] ?t = ?t"
    by (rule fold_collideBullet_None)
  moreover have "[0..<MAX_PROJECTILES] = 0 # [1..<MAX_PROJECTILES]"
    by (simp add: MAX_PROJECTILES_def upt_conv_Cons)
  ultimately show ?thesis
    by (simp add: checkBulletCollisions_def)
qed

lemma collideBullet_hit:
  assumes "bullets s ! i = Some b" and "vy b = 1" and "SDL_HasIntersection (bulletRect b) pRect"
  shows "collideBullet pRect i s =
    (createParticle \<lparr>pt_px = b_px b, pt_py = b_py b, lifetime = 0.5, particleType = SHIP_EXPLOSION\<rparr> s)
      \<lparr>bullets := (bullets s)[i := None],
       player := (player s)\<lparr>livesLeft := livesLeft (player s) - 1, p_px := 320, p_py := 446\<rparr>,
       gameOver := (gameOver s \<or> livesLeft (player s) - 1 \<le> 0)\<rparr>"
  using assms by (simp add: collideBullet_down hitPlayer_hit)



lemma player_freeEnemies [simp]: "player (freeEnemies s) = player s"
  unfolding freeEnemies_def by (rule fold_keeps) simp

lemma player_freeBullets [simp]: "player (freeBullets s) = player s"
  unfolding freeBullets_def by (rule fold_keeps) simp

lemma player_createEnemies [simp]: "player (createEnemies s) = player s"
  unfolding createEnemies_def by (rule fold_keeps) simp




lemma last_life_facts:
  "bullets last_life ! 0 = Some \<lparr>b_px = 105, b_py = 450, vy = 1\<rparr>"
  "\<forall>k<MAX_PROJECTILES. 0 < k \<longrightarrow> bullets last_life ! k = None"
  "playerRect (player last_life) = \<lparr>r_x = 100, r_y = 446, r_w = 20, r_h = 20\<rparr>"
  "livesLeft (player last_life) = 1" "\<not> gameOver last_life"
  "particles last_life = replicate MAX_PARTICLES None"
  by (simp_all add: last_life_def init_eq playerRect_def constants)

lemma crowded_hit_facts:
  "bullets crowded_hit ! 0 = Some \<lparr>b_px = 105, b_py = 450, vy = 1\<rparr>"
  "\<forall>k<MAX_PROJECTILES. 0 < k \<longrightarrow> bullets crowded_hit ! k = None"
  "playerRect (player crowded_hit) = \<lparr>r_x = 100, r_y = 446, r_w = 20, r_h = 20\<rparr>"
  "livesLeft (player crowded_hit) = 3" "gameOver crowded_hit"
  "\<forall>k<MAX_PARTICLES. particles crowded_hit ! k \<noteq> None"
  by (simp_all add: crowded_hit_def init_eq playerRect_def constants)

lemma overlap_105_450:
  "SDL_HasIntersection (bulletRect \<lparr>b_px = 105, b_py = 450, vy = 1\<rparr>)
     \<lparr>r_x = 100, r_y = 446, r_w = 20, r_h = 20\<rparr>"
  by (simp add: SDL_HasIntersection_def SDL_RectEmpty_def bulletRect_def constants)

section \<open>The enemy update\<close>

lemma moveEnemy_rest:
  "rest_of_game (moveEnemy delta i s) = rest_of_game s
   \<and> enemyDir (moveEnemy delta i s) = enemyDir s
   \<and> ENEMY_SPEED_MULT (moveEnemy delta i s) = ENEMY_SPEED_MULT s
   \<and> length (enemies (moveEnemy delta i s)) = length (enemies s)"
  by (simp add: moveEnemy_def rest_of_game_def Let_def split: option.split)

lemma fold_moveEnemy_rest:
  "rest_of_game (fold (moveEnemy delta) js s) = rest_of_game s
   \<and> enemyDir (fold (moveEnemy delta) js s) = enemyDir s
   \<and> ENEMY_SPEED_MULT (fold (moveEnemy delta) js s) = ENEMY_SPEED_MULT s
   \<and> length (enemies (fold (moveEnemy delta) js s)) = length (enemies s)"
  by (induction js arbitrary: s) (simp_all add: moveEnemy_rest)

lemma moveEnemy_enemies:
  "i < length (enemies s) \<Longrightarrow>
   enemies (moveEnemy delta i s) = (enemies s)[i := map_option (moved delta s) (enemies s ! i)]"
  by (cases "enemies s ! i")
    (simp_all add: moveEnemy_def moved_def Let_def list_update_same_conv [THEN iffD2])

lemma fold_moveEnemy_enemies:
  assumes "n \<le> length (enemies s)" and "k < length (enemies s)"
  shows "enemies (fold (moveEnemy delta) [0..<n] s) ! k =
         (if k < n then map_option (moved delta s) (enemies s ! k) else enemies s ! k)"
  using assms
proof (induction n arbitrary: k)
  case 0
  show ?case by simp
next
  case (Suc n)
  let ?t = "fold (moveEnemy delta) [0..<n] s"
  have len: "length (enemies ?t) = length (enemies s)"
    and dir: "enemyDir ?t = enemyDir s" and mult: "ENEMY_SPEED_MULT ?t = ENEMY_SPEED_MULT s"
    by (simp_all add: fold_moveEnemy_rest)
  have m: "moved delta ?t = moved delta s"
    by (rule ext) (simp add: moved_def dir mult)
  have n: "n < length (enemies ?t)"
    using Suc.prems len by simp
  have ih: "enemies ?t ! j = (if j < n then map_option (moved delta s) (enemies s ! j) else enemies s ! j)"
    if "j < length (enemies s)" for j
    using Suc.IH [of j] Suc.prems(1) that by simp
  show ?case
    using Suc.prems(2) ih [of k] ih [of n] n len
    by (simp add: moveEnemy_enemies [OF n] m nth_list_update less_Suc_eq)
qed

lemma fold_moveEnemy_map:
  assumes "length (enemies s) = MAX_ENEMIES"
  shows "enemies (fold (moveEnemy delta) [0..<MAX_ENEMIES] s) = map (map_option (moved delta s)) (enemies s)"
proof (rule nth_equalityI)
  show "length (enemies (fold (moveEnemy delta) [0..<MAX_ENEMIES] s)) =
        length (map (map_option (moved delta s)) (enemies s))"
    by (simp add: fold_moveEnemy_rest)
next
  fix k
  assume "k < length (enemies (fold (moveEnemy delta) [0..<MAX_ENEMIES] s))"
  then have k: "k < length (enemies s)"
    by (simp add: fold_moveEnemy_rest)
  show "enemies (fold (moveEnemy delta) [0..<MAX_ENEMIES] s) ! k =
        map (map_option (moved delta s)) (enemies s) ! k"
    using k assms by (simp add: fold_moveEnemy_enemies)
qed

lemma lowerEnemy_eq:
  "lowerEnemy i s = s\<lparr>enemies := (enemies s)[i := map_option lowered (enemies s ! i)]\<rparr>"
proof (cases "enemies s ! i")
  case None
  then have "(enemies s)[i := None] = enemies s"
    by (metis list_update_id)
  then show ?thesis
    using None by (simp add: lowerEnemy_def)
next
  case (Some e)
  then show ?thesis
    by (simp add: lowerEnemy_def lowered_def)
qed

lemma fold_lowerEnemy_eq:
  "fold lowerEnemy js s =
   s\<lparr>enemies := fold (\<lambda>i es. es[i := map_option lowered (es ! i)]) js (enemies s)\<rparr>"
  by (induction js arbitrary: s) (simp_all add: lowerEnemy_eq)

lemma fold_slots_length [simp]:
  "length (fold (\<lambda>i es. es[i := f (es ! i)]) js es) = length es"
  by (induction js arbitrary: es) simp_all

lemma fold_slots_nth:
  assumes "n \<le> length es" and "k < length es"
  shows "fold (\<lambda>i es. es[i := f (es ! i)]) [0..<n] es ! k = (if k < n then f (es ! k) else es ! k)"
  using assms
proof (induction n arbitrary: k)
  case 0
  show ?case by simp
next
  case (Suc n)
  have ih: "fold (\<lambda>i es. es[i := f (es ! i)]) [0..<n] es ! j = (if j < n then f (es ! j) else es ! j)"
    if "j < length es" for j
    using Suc.IH [of j] Suc.prems(1) that by simp
  show ?case
    using Suc.prems ih [of k] ih [of n]
    by (simp add: nth_list_update less_Suc_eq)
qed

lemma fold_slots_map:
  "fold (\<lambda>i es. es[i := f (es ! i)]) [0..<length es] es = map f es"
  by (rule nth_equalityI) (simp_all add: fold_slots_nth)

lemma reverseEnemies_eq:
  assumes "length (enemies s) = MAX_ENEMIES"
  shows "reverseEnemies s =
    s\<lparr>enemyDir := - enemyDir s,
      enemies := map (map_option lowered) (enemies s),
      ENEMY_SPEED_MULT := ENEMY_SPEED_MULT s + 0.025\<rparr>"
  using fold_slots_map [of "map_option lowered" "enemies s"] assms
  by (simp add: reverseEnemies_def Let_def fold_lowerEnemy_eq)

lemma edgeCheck_eq:
  "edgeCheck js s =
     (if \<exists>i\<in>set js. \<exists>e. enemies s ! i = Some e \<and> near_edge e then reverseEnemies s else s)"
  by (induction js) (auto simp: near_edge_def split: option.split)

lemma updateEnemies_eq:
  assumes "length (enemies s) = MAX_ENEMIES"
  shows "updateEnemies delta s =
    (let t = fold (moveEnemy delta) [0..<MAX_ENEMIES] s
     in if \<exists>i<MAX_ENEMIES. \<exists>e. enemies s ! i = Some e \<and> near_edge (moved delta s e)
        then t\<lparr>enemyDir := - enemyDir s,
               enemies := map (map_option (\<lambda>e. lowered (moved delta s e))) (enemies s),
               ENEMY_SPEED_MULT := ENEMY_SPEED_MULT s + 0.025\<rparr>
        else t)"
proof -
  let ?t = "fold (moveEnemy delta) [0..<MAX_ENEMIES] s"
  have es: "enemies ?t = map (map_option (moved delta s)) (enemies s)"
    by (rule fold_moveEnemy_map [OF assms])
  have len: "length (enemies ?t) = MAX_ENEMIES"
    by (simp add: es assms)
  have edge: "(\<exists>i\<in>set [0..<MAX_ENEMIES]. \<exists>e. enemies ?t ! i = Some e \<and> near_edge e) \<longleftrightarrow>
        (\<exists>i<MAX_ENEMIES. \<exists>e. enemies s ! i = Some e \<and> near_edge (moved delta s e))"
    using assms by (simp add: es Bex_def) blast
  have rev: "reverseEnemies ?t =
      ?t\<lparr>enemyDir := - enemyDir s,
         enemies := map (map_option (\<lambda>e. lowered (moved delta s e))) (enemies s),
         ENEMY_SPEED_MULT := ENEMY_SPEED_MULT s + 0.025\<rparr>"
    by (simp add: reverseEnemies_eq [OF len] fold_moveEnemy_rest es comp_def option.map_comp)
  show ?thesis
    unfolding updateEnemies_def edgeCheck_eq edge rev Let_def ..
qed

lemma updateEnemies_at_edge:
  assumes "length (enemies s) = MAX_ENEMIES"
    and "i < MAX_ENEMIES" and "enemies s ! i = Some e" and "near_edge (moved delta s e)"
  shows "enemyDir (updateEnemies delta s) = - enemyDir s
       \<and> ENEMY_SPEED_MULT (updateEnemies delta s) = ENEMY_SPEED_MULT s + 0.025
       \<and> enemies (updateEnemies delta s) =
           map (map_option (\<lambda>e. (moved delta s e)\<lparr>e_py := e_py e + 7\<rparr>)) (enemies s)"
proof -
  have "\<exists>i<MAX_ENEMIES. \<exists>e. enemies s ! i = Some e \<and> near_edge (moved delta s e)"
    using assms(2-4) by blast
  moreover have "lowered (moved delta s e) = (moved delta s e)\<lparr>e_py := e_py e + 7\<rparr>" for e
    by (simp add: lowered_def moved_def ENEMY_HEIGHT_def)
  ultimately show ?thesis
    by (simp add: updateEnemies_eq [OF assms(1)] Let_def)
qed

section \<open>The enemy shooting scan\<close>

lemma enemies_createBullet [simp]: "enemies (createBullet bx by dir s) = enemies s"
  by (simp add: createBullet_def)

lemma shootStep_skip:
  "enemies t ! nat index = None \<or> found ! j = 1 \<Longrightarrow>
   shootStep delta rnd j (t, index, found, n) = (t, index - 1, found, n)"
  by (auto simp: shootStep_def split: option.split)

lemma filter_update_le:
  "length (filter P (xs[i := v])) \<le> Suc (length (filter P xs))"
proof (induction xs arbitrary: i)
  case Nil
  show ?case by simp
next
  case (Cons x xs)
  show ?case
  proof (cases i)
    case 0
    then show ?thesis by simp
  next
    case (Suc i')
    then show ?thesis
      using Cons [of i'] by simp
  qed
qed

lemma live_install: "live (install js v pool) \<le> Suc (live pool)"
  using install_cases [of js v pool] filter_update_le [of "\<lambda>slot. slot \<noteq> None" pool]
  by (auto simp: live_def)

lemma live_createBullet: "live (bullets (createBullet bx by dir s)) \<le> Suc (live (bullets s))"
  by (simp add: createBullet_def live_install)

lemma shootStep_process:
  assumes "enemies t ! nat index = Some e" and "found ! j \<noteq> 1"
  shows "\<exists>t' e'. shootStep delta rnd j (t, index, found, n) = (t', index - 1, found[j := 1], Suc n)
           \<and> enemies t' = (enemies t)[nat index := Some e'] \<and> shot delta e e'
           \<and> live (bullets t') \<le> Suc (live (bullets t))"
proof (cases "rnd n mod 5000 < 10 \<and> e_shootTimer e \<le> 0")
  case True
  then show ?thesis
    using assms live_createBullet [of "c_int (e_px e)" "c_int (e_py e)" 1 t]
    by (auto simp: shootStep_def Let_def shot_def)
next
  case False
  then show ?thesis
    using assms by (auto simp: shootStep_def Let_def shot_def)
qed

lemma visited_Suc:
  "m < MAX_ENEMIES \<Longrightarrow> visited (Suc m) k \<longleftrightarrow> visited m k \<or> k = MAX_ENEMIES - 1 - m"
  by (auto simp: visited_def)

lemma scan_pos_step: "m < MAX_ENEMIES \<Longrightarrow> scan_pos (MAX_ENEMIES - 1 - m) = m mod 11"
  by (simp add: scan_pos_def)

lemma shoot_inv_step:
  assumes inv: "shoot_inv s delta m st" and m: "m < MAX_ENEMIES"
  shows "shoot_inv s delta (Suc m) (shootStep delta rnd (m mod 11) st)"
proof -
  obtain t index found n where st: "st = (t, index, found, n)"
    by (cases st) auto
  let ?K = "MAX_ENEMIES - 1 - m"
  let ?j = "m mod 11"
  have I: "index = int MAX_ENEMIES - 1 - int m \<and>
     length found = 11 \<and>
     (\<forall>j<11. found ! j = 1 \<longleftrightarrow> (\<exists>k. visited m k \<and> scan_pos k = j \<and> enemies s ! k \<noteq> None)) \<and>
     length (enemies t) = MAX_ENEMIES \<and>
     (\<forall>k<MAX_ENEMIES.
        if visited m k \<and> first_at_pos (enemies s) k
        then \<exists>e e'. enemies s ! k = Some e \<and> enemies t ! k = Some e' \<and> shot delta e e'
        else enemies t ! k = enemies s ! k) \<and>
     n = card {k. visited m k \<and> first_at_pos (enemies s) k} \<and>
     live (bullets t) \<le> live (bullets s) + n"
    using inv unfolding shoot_inv_def st prod.case .
  have cnt: "n = card {k. visited m k \<and> first_at_pos (enemies s) k}"
    by (rule I [THEN conjunct2, THEN conjunct2, THEN conjunct2, THEN conjunct2, THEN conjunct2,
        THEN conjunct1])
  have blt: "live (bullets t) \<le> live (bullets s) + n"
    by (rule I [THEN conjunct2, THEN conjunct2, THEN conjunct2, THEN conjunct2, THEN conjunct2,
        THEN conjunct2])
  have fin: "finite {k. visited m k \<and> first_at_pos (enemies s) k}"
    by (rule finite_subset [of _ "{..<MAX_ENEMIES}"]) (auto simp: visited_def)
  have idx: "index = int MAX_ENEMIES - 1 - int m"
    by (rule I [THEN conjunct1])
  have lf: "length found = 11"
    by (rule I [THEN conjunct2, THEN conjunct1])
  have len: "length (enemies t) = MAX_ENEMIES"
    by (rule I [THEN conjunct2, THEN conjunct2, THEN conjunct2, THEN conjunct1])
  have fnd: "found ! j = 1 \<longleftrightarrow> (\<exists>k. visited m k \<and> scan_pos k = j \<and> enemies s ! k \<noteq> None)"
    if "j < 11" for j
    using I [THEN conjunct2, THEN conjunct2, THEN conjunct1, rule_format, OF that] .
  have en: "if visited m k \<and> first_at_pos (enemies s) k
          then \<exists>e e'. enemies s ! k = Some e \<and> enemies t ! k = Some e' \<and> shot delta e e'
          else enemies t ! k = enemies s ! k"
    if "k < MAX_ENEMIES" for k
    using I [THEN conjunct2, THEN conjunct2, THEN conjunct2, THEN conjunct2, THEN conjunct1,
        rule_format, OF that] .
  have K: "nat index = ?K" and K55: "?K < MAX_ENEMIES"
    using idx m by (simp_all add: MAX_ENEMIES_def)
  have idx': "index - 1 = int MAX_ENEMIES - 1 - int (Suc m)"
    using idx by simp
  have nv: "\<not> visited m ?K"
    using m by (simp add: visited_def)
  have tK: "enemies t ! ?K = enemies s ! ?K"
    using en [OF K55] nv by simp
  have pos: "scan_pos ?K = ?j"
    using m by (rule scan_pos_step)
  have above: "visited m k \<longleftrightarrow> ?K < k \<and> k < MAX_ENEMIES" for k
    using m by (auto simp: visited_def)
  have vs: "visited (Suc m) k \<longleftrightarrow> visited m k \<or> k = ?K" for k
    using m by (rule visited_Suc)
  show ?thesis
  proof (cases "enemies s ! ?K = None \<or> found ! ?j = 1")
    case True
    have step: "shootStep delta rnd ?j st = (t, index - 1, found, n)"
      using True tK K by (simp add: st shootStep_skip)
    have notfirst: "\<not> first_at_pos (enemies s) ?K"
    proof (cases "enemies s ! ?K = None")
      case True
      then show ?thesis by (simp add: first_at_pos_def)
    next
      case False
      with \<open>enemies s ! ?K = None \<or> found ! ?j = 1\<close> have "found ! ?j = 1" by auto
      then have "\<exists>k. visited m k \<and> scan_pos k = ?j \<and> enemies s ! k \<noteq> None"
        using fnd [of ?j] by simp
      then obtain k where k: "visited m k" "scan_pos k = ?j" "enemies s ! k \<noteq> None"
        by blast
      have "?K < k \<and> k < MAX_ENEMIES \<and> scan_pos k = scan_pos ?K"
        using k(1,2) above [of k] pos by simp
      then show ?thesis
        using k(3) by (auto simp: first_at_pos_def)
    qed
    have f': "found ! j = 1 \<longleftrightarrow> (\<exists>k. visited (Suc m) k \<and> scan_pos k = j \<and> enemies s ! k \<noteq> None)"
      if "j < 11" for j
    proof
      assume "found ! j = 1"
      then have "\<exists>k. visited m k \<and> scan_pos k = j \<and> enemies s ! k \<noteq> None"
        using fnd [OF that] by simp
      then obtain k where "visited m k" "scan_pos k = j" "enemies s ! k \<noteq> None"
        by blast
      moreover from this have "visited (Suc m) k"
        using vs [of k] by simp
      ultimately show "\<exists>k. visited (Suc m) k \<and> scan_pos k = j \<and> enemies s ! k \<noteq> None"
        by blast
    next
      assume "\<exists>k. visited (Suc m) k \<and> scan_pos k = j \<and> enemies s ! k \<noteq> None"
      then obtain k where k: "visited (Suc m) k" "scan_pos k = j" "enemies s ! k \<noteq> None"
        by blast
      show "found ! j = 1"
      proof (cases "k = ?K")
        case True
        then have "found ! ?j = 1" and "j = ?j"
          using k \<open>enemies s ! ?K = None \<or> found ! ?j = 1\<close> pos by auto
        then show ?thesis by simp
      next
        case False
        then have "visited m k" using k(1) vs by simp
        then show ?thesis using fnd [OF that] k by blast
      qed
    qed
    have e': "if visited (Suc m) k \<and> first_at_pos (enemies s) k
          then \<exists>e e'. enemies s ! k = Some e \<and> enemies t ! k = Some e' \<and> shot delta e e'
          else enemies t ! k = enemies s ! k"
      if "k < MAX_ENEMIES" for k
    proof (cases "k = ?K")
      case True
      then show ?thesis using notfirst tK by simp
    next
      case False
      have a: "visited (Suc m) k \<longleftrightarrow> visited m k"
        using vs False by simp
      show ?thesis
        unfolding a by (rule en [OF that])
    qed
    show ?thesis
      unfolding step shoot_inv_def prod.case
    proof (intro conjI allI impI)
      show "index - 1 = int MAX_ENEMIES - 1 - int (Suc m)" by (rule idx')
      show "length found = 11" by (rule lf)
      show "length (enemies t) = MAX_ENEMIES" by (rule len)
      have "{k. visited (Suc m) k \<and> first_at_pos (enemies s) k} =
            {k. visited m k \<and> first_at_pos (enemies s) k}"
        using vs notfirst by auto
      then show "n = card {k. visited (Suc m) k \<and> first_at_pos (enemies s) k}"
        using cnt by simp
      show "live (bullets t) \<le> live (bullets s) + n" by (rule blt)
    next
      fix j :: nat
      assume "j < 11"
      then show "found ! j = 1 \<longleftrightarrow>
          (\<exists>k. visited (Suc m) k \<and> scan_pos k = j \<and> enemies s ! k \<noteq> None)"
        by (rule f')
    next
      fix k
      assume "k < MAX_ENEMIES"
      then show "if visited (Suc m) k \<and> first_at_pos (enemies s) k
          then \<exists>e e'. enemies s ! k = Some e \<and> enemies t ! k = Some e' \<and> shot delta e e'
          else enemies t ! k = enemies s ! k"
        by (rule e')
    qed
  next
    case False
    then obtain e where e: "enemies s ! ?K = Some e" and nf: "found ! ?j \<noteq> 1"
      by auto
    have "enemies t ! nat index = Some e"
      using e tK K by simp
    then obtain t' e' where step: "shootStep delta rnd ?j st = (t', index - 1, found[?j := 1], Suc n)"
      and t': "enemies t' = (enemies t)[?K := Some e']" and shot: "shot delta e e'"
      and blt': "live (bullets t') \<le> Suc (live (bullets t))"
      using shootStep_process [of t index e found ?j delta rnd n] nf K st by auto
    have first: "first_at_pos (enemies s) ?K"
      unfolding first_at_pos_def
    proof (intro conjI allI impI)
      show "enemies s ! ?K \<noteq> None" using e by simp
    next
      fix k'
      assume a: "?K < k' \<and> k' < MAX_ENEMIES \<and> scan_pos k' = scan_pos ?K"
      then have "visited m k'" using above by simp
      then show "enemies s ! k' = None"
        using fnd [of ?j] nf a pos by auto
    qed
    have f': "found[?j := 1] ! j = 1 \<longleftrightarrow>
          (\<exists>k. visited (Suc m) k \<and> scan_pos k = j \<and> enemies s ! k \<noteq> None)"
      if "j < 11" for j
    proof (cases "j = ?j")
      case True
      have "visited (Suc m) ?K \<and> scan_pos ?K = j \<and> enemies s ! ?K \<noteq> None"
        using vs pos e True by simp
      then show ?thesis using True lf by auto
    next
      case False
      then have "(\<exists>k. visited (Suc m) k \<and> scan_pos k = j \<and> enemies s ! k \<noteq> None) \<longleftrightarrow>
                 (\<exists>k. visited m k \<and> scan_pos k = j \<and> enemies s ! k \<noteq> None)"
        using vs pos by auto
      then show ?thesis using False fnd [OF that] by simp
    qed
    have e'': "if visited (Suc m) k \<and> first_at_pos (enemies s) k
          then \<exists>e e'. enemies s ! k = Some e \<and> enemies t' ! k = Some e' \<and> shot delta e e'
          else enemies t' ! k = enemies s ! k"
      if "k < MAX_ENEMIES" for k
    proof (cases "k = ?K")
      case True
      have "enemies t' ! ?K = Some e'"
        using t' len K55 by simp
      then have "\<exists>e e'. enemies s ! ?K = Some e \<and> enemies t' ! ?K = Some e' \<and> shot delta e e'"
        using e shot by simp
      moreover have "visited (Suc m) ?K \<and> first_at_pos (enemies s) ?K"
        using first vs by simp
      ultimately show ?thesis
        unfolding True by simp
    next
      case False
      have a: "visited (Suc m) k \<longleftrightarrow> visited m k"
        using vs False by simp
      have b: "enemies t' ! k = enemies t ! k"
        using t' False by simp
      show ?thesis
        unfolding a b by (rule en [OF that])
    qed
    have len': "length (enemies t') = MAX_ENEMIES"
      using t' len by simp
    have lf': "length (found[?j := 1]) = 11"
      using lf by simp
    show ?thesis
      unfolding step shoot_inv_def prod.case
    proof (intro conjI allI impI)
      show "index - 1 = int MAX_ENEMIES - 1 - int (Suc m)" by (rule idx')
      show "length (found[?j := 1]) = 11" by (rule lf')
      show "length (enemies t') = MAX_ENEMIES" by (rule len')
      have "{k. visited (Suc m) k \<and> first_at_pos (enemies s) k} =
            insert ?K {k. visited m k \<and> first_at_pos (enemies s) k}"
        using vs first by auto
      moreover have "?K \<notin> {k. visited m k \<and> first_at_pos (enemies s) k}"
        using nv by simp
      ultimately show "Suc n = card {k. visited (Suc m) k \<and> first_at_pos (enemies s) k}"
        using cnt fin by simp
      show "live (bullets t') \<le> live (bullets s) + Suc n"
        using blt blt' by simp
    next
      fix j :: nat
      assume "j < 11"
      then show "found[?j := 1] ! j = 1 \<longleftrightarrow>
          (\<exists>k. visited (Suc m) k \<and> scan_pos k = j \<and> enemies s ! k \<noteq> None)"
        by (rule f')
    next
      fix k
      assume "k < MAX_ENEMIES"
      then show "if visited (Suc m) k \<and> first_at_pos (enemies s) k
          then \<exists>e e'. enemies s ! k = Some e \<and> enemies t' ! k = Some e' \<and> shot delta e e'
          else enemies t' ! k = enemies s ! k"
        by (rule e'')
    qed
  qed
qed

lemma fold_nested:
  "fold (\<lambda>i st. fold f js st) is st = fold f (concat (map (\<lambda>i. js) is)) st"
  by (induction "is" arbitrary: st) simp_all

lemma scan_positions:
  "concat (map (\<lambda>i. [0..<11]) [0..<5]) = map (\<lambda>m. m mod 11) [0..<55]"
  by code_simp

lemma enemyShoot_flat:
  "enemyShoot delta rnd s =
   fst (fold (shootStep delta rnd) (map (\<lambda>m. m mod 11) [0..<MAX_ENEMIES])
         (s, int MAX_ENEMIES - 1, replicate 11 0, 0))"
  by (simp add: enemyShoot_def fold_nested scan_positions MAX_ENEMIES_def)

lemma shoot_inv_start:
  "length (enemies s) = MAX_ENEMIES \<Longrightarrow>
   shoot_inv s delta 0 (s, int MAX_ENEMIES - 1, replicate 11 0, 0)"
  by (simp add: shoot_inv_def visited_def)

lemma shoot_inv_fold:
  assumes "shoot_inv s delta 0 st" and "m \<le> MAX_ENEMIES"
  shows "shoot_inv s delta m (fold (shootStep delta rnd) (map (\<lambda>m. m mod 11) [0..<m]) st)"
  using assms(2)
proof (induction m)
  case 0
  show ?case using assms(1) by simp
next
  case (Suc m)
  then have "shoot_inv s delta m (fold (shootStep delta rnd) (map (\<lambda>m. m mod 11) [0..<m]) st)"
    and "m < MAX_ENEMIES"
    by simp_all
  then show ?case
    by (simp add: shoot_inv_step)
qed

lemma first_at_pos_card: "card {k. k < MAX_ENEMIES \<and> first_at_pos es k} \<le> 11"
proof -
  let ?A = "{k. k < MAX_ENEMIES \<and> first_at_pos es k}"
  have "inj_on scan_pos ?A"
  proof (rule inj_onI)
    fix a b
    assume a: "a \<in> ?A" and b: "b \<in> ?A" and eq: "scan_pos a = scan_pos b"
    show "a = b"
    proof (rule ccontr)
      assume "a \<noteq> b"
      then consider "a < b" | "b < a" by arith
      then show False
      proof cases
        case 1
        then have "es ! b = None"
          using a b eq by (simp add: first_at_pos_def)
        then show False using b by (simp add: first_at_pos_def)
      next
        case 2
        then have "es ! a = None"
          using a b eq by (simp add: first_at_pos_def)
        then show False using a by (simp add: first_at_pos_def)
      qed
    qed
  qed
  moreover have "scan_pos ` ?A \<subseteq> {..<11}"
    by (auto simp: scan_pos_def)
  ultimately have "card ?A \<le> card {..<11::nat}"
    by (intro card_inj_on_le) simp_all
  then show ?thesis by simp
qed

lemma thinned_slot:
  "k < 55 \<Longrightarrow> enemies thinned ! k = (if k = 54 then None else Some (newEnemy 1 k))"
  by (simp add: thinned_def init_eq MAX_ENEMIES_def nth_list_update)

lemma not_first_at_pos:
  "k < k' \<Longrightarrow> k' < MAX_ENEMIES \<Longrightarrow> scan_pos k' = scan_pos k \<Longrightarrow> es ! k' \<noteq> None \<Longrightarrow>
   \<not> first_at_pos es k"
  by (auto simp: first_at_pos_def)

section \<open>Properties\<close>

text \<open>
  C1. In \<^verbatim>\<open>checkBulletCollisions\<close> a bullet with \<open>vy = -1\<close> never hits the player: the test
  against the player leaves the state as it is, and the iteration for that bullet changes
  neither the lives, nor the position of the player, nor the game-over flag. A bullet with
  \<open>vy = 1\<close> never hits an enemy: the test against every enemy leaves the state as it is, and
  the iteration changes neither the enemy pool nor the score. So a call in which every bullet
  flies up cannot hurt the player, and a call in which every bullet flies down cannot hurt an
  enemy.
\<close>

theorem bullets_hit_only_the_other_side:
  "(bullets s ! i = Some b \<and> vy b = - 1 \<longrightarrow>
      hitPlayer pRect bRect i s = s
    \<and> livesLeft (player (collideBullet pRect i s)) = livesLeft (player s)
    \<and> p_px (player (collideBullet pRect i s)) = p_px (player s)
    \<and> p_py (player (collideBullet pRect i s)) = p_py (player s)
    \<and> gameOver (collideBullet pRect i s) = gameOver s)
   \<and> (bullets s ! i = Some b \<and> vy b = 1 \<longrightarrow>
      hitEnemy bRect i j s = s
    \<and> enemies (collideBullet pRect i s) = enemies s
    \<and> score (player (collideBullet pRect i s)) = score (player s))
   \<and> ((\<forall>k<MAX_PROJECTILES. \<forall>c. bullets s ! k = Some c \<longrightarrow> vy c = - 1) \<longrightarrow>
      livesLeft (player (checkBulletCollisions s)) = livesLeft (player s)
    \<and> p_px (player (checkBulletCollisions s)) = p_px (player s)
    \<and> p_py (player (checkBulletCollisions s)) = p_py (player s)
    \<and> gameOver (checkBulletCollisions s) = gameOver s)
   \<and> ((\<forall>k<MAX_PROJECTILES. \<forall>c. bullets s ! k = Some c \<longrightarrow> vy c = 1) \<longrightarrow>
      enemies (checkBulletCollisions s) = enemies s
    \<and> score (player (checkBulletCollisions s)) = score (player s))"
proof (intro conjI impI)
  assume a: "bullets s ! i = Some b \<and> vy b = - 1"
  then show "hitPlayer pRect bRect i s = s"
    by (simp add: hitPlayer_noop)
  have "body_of_player (collideBullet pRect i s) = body_of_player s"
    using a by (simp add: collideBullet_up_body)
  then show "livesLeft (player (collideBullet pRect i s)) = livesLeft (player s)"
    and "p_px (player (collideBullet pRect i s)) = p_px (player s)"
    and "p_py (player (collideBullet pRect i s)) = p_py (player s)"
    and "gameOver (collideBullet pRect i s) = gameOver s"
    by (simp_all add: body_of_player_def)
next
  assume a: "bullets s ! i = Some b \<and> vy b = 1"
  then show "hitEnemy bRect i j s = s"
    by (simp add: hitEnemy_noop)
  have "collideBullet pRect i s = hitPlayer pRect (bulletRect b) i s"
    using a by (simp add: collideBullet_down)
  then show "enemies (collideBullet pRect i s) = enemies s"
    and "score (player (collideBullet pRect i s)) = score (player s)"
    by (simp_all add: hitPlayer_enemies hitPlayer_score)
next
  assume "\<forall>k<MAX_PROJECTILES. \<forall>c. bullets s ! k = Some c \<longrightarrow> vy c = - 1"
  then have "body_of_player (checkBulletCollisions s) = body_of_player s"
    by (rule checkBulletCollisions_all_up)
  then show "livesLeft (player (checkBulletCollisions s)) = livesLeft (player s)"
    and "p_px (player (checkBulletCollisions s)) = p_px (player s)"
    and "p_py (player (checkBulletCollisions s)) = p_py (player s)"
    and "gameOver (checkBulletCollisions s) = gameOver s"
    by (simp_all add: body_of_player_def)
next
  assume "\<forall>k<MAX_PROJECTILES. \<forall>c. bullets s ! k = Some c \<longrightarrow> vy c = 1"
  then show "enemies (checkBulletCollisions s) = enemies s"
    and "score (player (checkBulletCollisions s)) = score (player s)"
    using checkBulletCollisions_all_down by blast+
qed

theorem bullets_hit_only_the_other_side_witness:
  "bullets player_shot ! 0 = Some \<lparr>b_px = 330, b_py = 456, vy = - 1\<rparr>
   \<and> list_all (\<lambda>slot. \<forall>c. slot = Some c \<longrightarrow> vy c = - 1) (bullets player_shot)
   \<and> list_all (\<lambda>slot. \<forall>c. slot = Some c \<longrightarrow> vy c = 1) (bullets enemy_shot)
   \<and> SDL_HasIntersection (bulletRect \<lparr>b_px = 330, b_py = 456, vy = - 1\<rparr>) (playerRect (player player_shot))
   \<and> hitPlayer (playerRect (player player_shot)) (bulletRect \<lparr>b_px = 330, b_py = 456, vy = - 1\<rparr>) 0 player_shot
       = player_shot
   \<and> livesLeft (player (checkBulletCollisions player_shot)) = 3
   \<and> p_px (player (checkBulletCollisions player_shot)) = 320
   \<and> \<not> gameOver (checkBulletCollisions player_shot)
   \<and> bullets enemy_shot ! 0 = Some \<lparr>b_px = 115, b_py = 115, vy = 1\<rparr>
   \<and> enemies enemy_shot ! 0 = Some (newEnemy 1 0)
   \<and> SDL_HasIntersection (bulletRect \<lparr>b_px = 115, b_py = 115, vy = 1\<rparr>) (enemyRect (newEnemy 1 0))
   \<and> hitEnemy (bulletRect \<lparr>b_px = 115, b_py = 115, vy = 1\<rparr>) 0 0 enemy_shot = enemy_shot
   \<and> enemies (checkBulletCollisions enemy_shot) = enemies enemy_shot
   \<and> score (player (checkBulletCollisions enemy_shot)) = 0"
proof -
  let ?u = "\<lparr>b_px = 330, b_py = 456, vy = - 1\<rparr>" and ?d = "\<lparr>b_px = 115, b_py = 115, vy = 1\<rparr>"
  note U = bullets_hit_only_the_other_side
    [of player_shot 0 ?u "playerRect (player player_shot)" "bulletRect ?u" 0]
  note D = bullets_hit_only_the_other_side
    [of enemy_shot 0 ?d "playerRect (player enemy_shot)" "bulletRect ?d" 0]
  have u0: "bullets player_shot ! 0 = Some ?u \<and> vy ?u = - 1"
    by (simp add: player_shot_eq MAX_PROJECTILES_def)
  have u1: "\<forall>k<MAX_PROJECTILES. \<forall>c. bullets player_shot ! k = Some c \<longrightarrow> vy c = - 1"
    by (auto simp: player_shot_eq nth_list_update)
  have u2: "SDL_HasIntersection (bulletRect ?u) (playerRect (player player_shot))"
    by (simp add: player_shot_eq init_eq SDL_HasIntersection_def SDL_RectEmpty_def bulletRect_def
        playerRect_def constants)
  have d0: "bullets enemy_shot ! 0 = Some ?d \<and> vy ?d = 1"
    by (simp add: enemy_shot_eq MAX_PROJECTILES_def)
  have d1: "\<forall>k<MAX_PROJECTILES. \<forall>c. bullets enemy_shot ! k = Some c \<longrightarrow> vy c = 1"
    by (auto simp: enemy_shot_eq nth_list_update)
  have d2: "enemies enemy_shot ! 0 = Some (newEnemy 1 0)"
    by (simp add: enemy_shot_eq init_eq MAX_ENEMIES_def upt_conv_Cons)
  have d3: "SDL_HasIntersection (bulletRect ?d) (enemyRect (newEnemy 1 0))"
    by (simp add: SDL_HasIntersection_def SDL_RectEmpty_def bulletRect_def enemyRect_def
        newEnemy_def constants)
  have vals: "livesLeft (player player_shot) = 3" "p_px (player player_shot) = 320"
    "\<not> gameOver player_shot" "score (player enemy_shot) = 0"
    by (simp_all add: player_shot_eq enemy_shot_eq init_eq)
  have cu: "hitPlayer (playerRect (player player_shot)) (bulletRect ?u) 0 player_shot = player_shot"
    "livesLeft (player (checkBulletCollisions player_shot)) = livesLeft (player player_shot)"
    "p_px (player (checkBulletCollisions player_shot)) = p_px (player player_shot)"
    "gameOver (checkBulletCollisions player_shot) = gameOver player_shot"
    using U u0 u1 by blast+
  have cd: "hitEnemy (bulletRect ?d) 0 0 enemy_shot = enemy_shot"
    "enemies (checkBulletCollisions enemy_shot) = enemies enemy_shot"
    "score (player (checkBulletCollisions enemy_shot)) = score (player enemy_shot)"
    using D d0 d1 by blast+
  have la: "list_all (\<lambda>slot. \<forall>c. slot = Some c \<longrightarrow> vy c = - 1) (bullets player_shot)"
    "list_all (\<lambda>slot. \<forall>c. slot = Some c \<longrightarrow> vy c = 1) (bullets enemy_shot)"
    using u1 d1 by (simp_all add: list_all_length player_shot_eq enemy_shot_eq)
  show ?thesis
    using u0 u2 cu d0 d2 d3 cd vals la by simp
qed

text \<open>
  C2. When the game-over flag is set as \<^verbatim>\<open>checkGameState\<close> runs, afterwards the high score is
  the maximum of the previous high score and the previous score; the player has score 0,
  three lives, shoot timer 0 and stands at the spawn position of \<^verbatim>\<open>createPlayer\<close>; the enemy
  pool has been emptied and filled again for the current wave, whose number is unchanged;
  every slot of the bullet pool is empty; and the flag is cleared.
\<close>

theorem checkGameState_resets:
  assumes "pools_ok s" and "gameOver s"
  shows "hiScore (player (checkGameState s)) = max (hiScore (player s)) (score (player s))
       \<and> score (player (checkGameState s)) = 0
       \<and> livesLeft (player (checkGameState s)) = 3
       \<and> p_shootTimer (player (checkGameState s)) = 0
       \<and> p_px (player (checkGameState s)) = p_px (createPlayer (player s))
       \<and> p_py (player (checkGameState s)) = p_py (createPlayer (player s))
       \<and> enemies (checkGameState s) = enemies (createEnemies (freeEnemies s))
       \<and> enemies (checkGameState s) = map (\<lambda>i. Some (newEnemy (currentWave s) i)) [0..<MAX_ENEMIES]
       \<and> currentWave (checkGameState s) = currentWave s
       \<and> bullets (checkGameState s) = replicate MAX_PROJECTILES None
       \<and> live (bullets (checkGameState s)) = 0
       \<and> \<not> gameOver (checkGameState s)"
proof -
  have len: "length (enemies s) = MAX_ENEMIES"
    using assms(1) by (simp add: pools_ok_def)
  have "checkGameState s = resetGame s"
    using spawnNextWave_resetGame [OF assms] by (simp add: checkGameState_def nextWave_def)
  then show ?thesis
    by (simp add: resetGame_eq [OF assms] createPlayer_def live_def freeEnemies_eq [OF len]
        createEnemies_eq)
qed

theorem checkGameState_resets_witness:
  "pools_ok lost_game \<and> gameOver lost_game
   \<and> score (player lost_game) = 150 \<and> hiScore (player lost_game) = 200
   \<and> hiScore (player (checkGameState lost_game)) = 200
   \<and> score (player (checkGameState lost_game)) = 0
   \<and> livesLeft (player (checkGameState lost_game)) = 3
   \<and> p_px (player (checkGameState lost_game)) = 320
   \<and> p_py (player (checkGameState lost_game)) = 446
   \<and> currentWave (checkGameState lost_game) = 2
   \<and> live (bullets (checkGameState lost_game)) = 0
   \<and> \<not> gameOver (checkGameState lost_game)"
proof -
  have ok: "pools_ok lost_game" and over: "gameOver lost_game"
    by (simp_all add: lost_game_def pools_ok_def)
  have vals: "score (player lost_game) = 150" "hiScore (player lost_game) = 200"
    "currentWave lost_game = 2"
    by (simp_all add: lost_game_def)
  show ?thesis
    using ok over vals checkGameState_resets [OF ok over]
    by (simp add: createPlayer_def WINDOW_WIDTH_def WINDOW_HEIGHT_def live_def)
qed

text \<open>
  C3. The wave-clear block of \<^verbatim>\<open>checkGameState\<close> (\<open>nextWave\<close>) changes nothing when some slot
  of the enemy pool is occupied. When every slot is empty it adds one to the wave number,
  fills the pool for the new wave and sets the lives to 3; the score and the position of the
  player stay as they are. Without the game-over flag, \<^verbatim>\<open>checkGameState\<close> is this block alone.
\<close>

theorem nextWave_only_when_cleared:
  assumes "length (enemies s) = MAX_ENEMIES"
  shows "((\<exists>i<MAX_ENEMIES. enemies s ! i \<noteq> None) \<longrightarrow> nextWave s = s)
       \<and> ((\<forall>i<MAX_ENEMIES. enemies s ! i = None) \<longrightarrow>
            currentWave (nextWave s) = currentWave s + 1
          \<and> enemies (nextWave s) = map (\<lambda>i. Some (newEnemy (currentWave s + 1) i)) [0..<MAX_ENEMIES]
          \<and> livesLeft (player (nextWave s)) = 3
          \<and> score (player (nextWave s)) = score (player s)
          \<and> p_px (player (nextWave s)) = p_px (player s)
          \<and> p_py (player (nextWave s)) = p_py (player s)
          \<and> nextWave s = s\<lparr>currentWave := currentWave s + 1,
                            enemies := map (\<lambda>i. Some (newEnemy (currentWave s + 1) i)) [0..<MAX_ENEMIES],
                            player := (player s)\<lparr>livesLeft := 3\<rparr>\<rparr>)
       \<and> (\<not> gameOver s \<longrightarrow> checkGameState s = nextWave s)"
proof (intro conjI impI)
  assume "\<exists>i<MAX_ENEMIES. enemies s ! i \<noteq> None"
  then have "\<not> spawnNextWave s"
    by (simp add: spawnNextWave_iff)
  then show "nextWave s = s"
    by (simp add: nextWave_def)
next
  assume "\<not> gameOver s"
  then show "checkGameState s = nextWave s"
    by (simp add: checkGameState_def resetGame_def)
next
  assume "\<forall>i<MAX_ENEMIES. enemies s ! i = None"
  then have sp: "spawnNextWave s"
    by (simp add: spawnNextWave_iff)
  note eq = nextWave_eq [OF assms sp]
  show "currentWave (nextWave s) = currentWave s + 1"
    and "enemies (nextWave s) = map (\<lambda>i. Some (newEnemy (currentWave s + 1) i)) [0..<MAX_ENEMIES]"
    and "livesLeft (player (nextWave s)) = 3"
    and "score (player (nextWave s)) = score (player s)"
    and "p_px (player (nextWave s)) = p_px (player s)"
    and "p_py (player (nextWave s)) = p_py (player s)"
    and "nextWave s = s\<lparr>currentWave := currentWave s + 1,
                            enemies := map (\<lambda>i. Some (newEnemy (currentWave s + 1) i)) [0..<MAX_ENEMIES],
                            player := (player s)\<lparr>livesLeft := 3\<rparr>\<rparr>"
    by (simp_all add: eq)
qed

theorem nextWave_only_when_cleared_witness:
  "length (enemies lost_game) = MAX_ENEMIES
   \<and> (7 < MAX_ENEMIES \<and> enemies lost_game ! 7 \<noteq> None)
   \<and> nextWave lost_game = lost_game
   \<and> length (enemies cleared_wave) = MAX_ENEMIES
   \<and> list_all (\<lambda>slot. slot = None) (enemies cleared_wave)
   \<and> \<not> gameOver cleared_wave
   \<and> currentWave (checkGameState cleared_wave) = 3
   \<and> livesLeft (player (checkGameState cleared_wave)) = 3
   \<and> score (player (checkGameState cleared_wave)) = 550
   \<and> p_px (player (checkGameState cleared_wave)) = 75.5
   \<and> enemies (checkGameState cleared_wave) ! 0 = Some (newEnemy 3 0)"
proof -
  have l1: "length (enemies lost_game) = MAX_ENEMIES"
    by (simp add: lost_game_def)
  have e1: "\<exists>i<MAX_ENEMIES. enemies lost_game ! i \<noteq> None"
    by (rule exI [of _ 7]) (simp add: lost_game_def MAX_ENEMIES_def)
  have l2: "length (enemies cleared_wave) = MAX_ENEMIES"
    by (simp add: cleared_wave_def)
  have e2: "\<forall>i<MAX_ENEMIES. enemies cleared_wave ! i = None"
    by (simp add: cleared_wave_def)
  have g2: "\<not> gameOver cleared_wave"
    by (simp add: cleared_wave_def)
  have a: "nextWave lost_game = lost_game"
    using nextWave_only_when_cleared [OF l1] e1 by blast
  have b: "checkGameState cleared_wave = nextWave cleared_wave"
    using nextWave_only_when_cleared [OF l2] g2 by blast
  have c: "currentWave (nextWave cleared_wave) = currentWave cleared_wave + 1
     \<and> enemies (nextWave cleared_wave) = map (\<lambda>i. Some (newEnemy (currentWave cleared_wave + 1) i)) [0..<MAX_ENEMIES]
     \<and> livesLeft (player (nextWave cleared_wave)) = 3
     \<and> score (player (nextWave cleared_wave)) = score (player cleared_wave)
     \<and> p_px (player (nextWave cleared_wave)) = p_px (player cleared_wave)"
    using nextWave_only_when_cleared [OF l2] e2 by blast
  have vals: "currentWave cleared_wave = 2" "score (player cleared_wave) = 550"
    "p_px (player cleared_wave) = 75.5"
    by (simp_all add: cleared_wave_def)
  have d: "enemies (checkGameState cleared_wave) ! 0 = Some (newEnemy 3 0)"
    using c by (simp add: b vals MAX_ENEMIES_def upt_conv_Cons)
  have e3: "list_all (\<lambda>slot. slot = None) (enemies cleared_wave)"
    using e2 l2 by (simp add: list_all_length)
  have e4: "7 < MAX_ENEMIES \<and> enemies lost_game ! 7 \<noteq> None"
    by (simp add: lost_game_def MAX_ENEMIES_def)
  show ?thesis
    using l1 l2 a b c d g2 e3 e4 vals by simp
qed

text \<open>
  C4. The specification says that, when an enemy is left of \<open>ENEMY_WIDTH\<close> or right of
  \<open>WINDOW_WIDTH - 2 * ENEMY_WIDTH\<close> after the move, \<^verbatim>\<open>updateEnemies\<close> negates the direction
  once, adds 0.025 to the speed multiplier and lowers every live enemy by a quarter of
  \<open>ENEMY_HEIGHT\<close>, which is 7.5; the comment in the source says a quarter of the height too.
  The code does the first two, but \<^verbatim>\<open>ENEMY_HEIGHT / 4\<close> divides two unsigned integers and the
  enemies go down by 7: in the state \<open>at_left_edge\<close>, after a frame of 20 ms, the enemy of
  slot 0 has moved from (29.4, 100) to (29, 107), not to (29, 107.5). The general behaviour
  of the code is the lemma \<open>updateEnemies_at_edge\<close>.
\<close>

theorem updateEnemies_lowers_by_seven:
  "enemies at_left_edge ! 0 = Some \<lparr>e_px = 29.4, e_py = 100, killReward = 10, e_shootTimer = 0.95\<rparr>
   \<and> enemyDir at_left_edge = - 1
   \<and> enemyDir (updateEnemies (1 / 50) at_left_edge) = 1
   \<and> ENEMY_SPEED_MULT (updateEnemies (1 / 50) at_left_edge) = 1.025
   \<and> enemies (updateEnemies (1 / 50) at_left_edge) ! 0 =
       Some \<lparr>e_px = 29, e_py = 107, killReward = 10, e_shootTimer = 0.95\<rparr>
   \<and> (107::real) \<noteq> 100 + real_of_int ENEMY_HEIGHT / 4"
proof -
  let ?e = "\<lparr>e_px = 29.4, e_py = 100, killReward = 10, e_shootTimer = 0.95\<rparr>"
  have len: "length (enemies at_left_edge) = MAX_ENEMIES"
    by (simp add: at_left_edge_def)
  have e0: "enemies at_left_edge ! 0 = Some ?e"
    by (simp add: at_left_edge_def MAX_ENEMIES_def upt_conv_Cons newEnemy_def ENEMY_WIDTH_def ENEMY_HEIGHT_def)
  have vals: "enemyDir at_left_edge = - 1" "ENEMY_SPEED_MULT at_left_edge = 1"
    by (simp_all add: at_left_edge_def init_eq)
  have mv: "moved (1 / 50) at_left_edge ?e = \<lparr>e_px = 29, e_py = 100, killReward = 10, e_shootTimer = 0.95\<rparr>"
    by (simp add: moved_def vals ENEMY_SPEED_def)
  have edge: "near_edge (moved (1 / 50) at_left_edge ?e)"
    unfolding mv by (simp add: near_edge_def ENEMY_WIDTH_def)
  have pos: "0 < MAX_ENEMIES"
    by (simp add: MAX_ENEMIES_def)
  note U = updateEnemies_at_edge [OF len pos e0 edge]
  have "enemies (updateEnemies (1 / 50) at_left_edge) ! 0 =
        map_option (\<lambda>e. (moved (1 / 50) at_left_edge e)\<lparr>e_py := e_py e + 7\<rparr>) (enemies at_left_edge ! 0)"
    using len pos by (simp add: U)
  then have "enemies (updateEnemies (1 / 50) at_left_edge) ! 0 =
       Some \<lparr>e_px = 29, e_py = 107, killReward = 10, e_shootTimer = 0.95\<rparr>"
    by (simp only: e0 option.map mv) simp
  then show ?thesis
    using e0 vals U by (simp add: ENEMY_HEIGHT_def)
qed

text \<open>
  C5. For every wave number, \<^verbatim>\<open>createEnemies\<close> fills all 55 slots of the enemy pool, in
  row-major order of a grid with 11 columns: the enemy of slot \<open>i\<close> is at
  \<open>(col * (ENEMY_WIDTH + 10) + 100, row * (ENEMY_HEIGHT + 10) + 100)\<close> with \<open>col = i mod 11\<close>
  and \<open>row = i div 11\<close>, its kill reward is ten times the wave number and its shoot timer is
  \<open>max 0.20 (1 - 0.05 * wave)\<close>. Slot 0 is at (100, 100), slot 10 at (500, 100) and slot 11
  at (100, 140).
\<close>

theorem createEnemies_grid:
  assumes "length (enemies s) = MAX_ENEMIES"
  shows "length (enemies (createEnemies s)) = 55
       \<and> live (enemies (createEnemies s)) = 55
       \<and> (\<forall>i<55. enemies (createEnemies s) ! i = Some
             \<lparr>e_px = real (i mod 11) * (of_int ENEMY_WIDTH + 10) + 100,
              e_py = real (i div 11) * (of_int ENEMY_HEIGHT + 10) + 100,
              killReward = 10 * currentWave s,
              e_shootTimer = max 0.20 (1 - 0.05 * of_int (currentWave s))\<rparr>)
       \<and> map_option (\<lambda>e. (e_px e, e_py e)) (enemies (createEnemies s) ! 0) = Some (100, 100)
       \<and> map_option (\<lambda>e. (e_px e, e_py e)) (enemies (createEnemies s) ! 10) = Some (500, 100)
       \<and> map_option (\<lambda>e. (e_px e, e_py e)) (enemies (createEnemies s) ! 11) = Some (100, 140)"
proof -
  have es: "enemies (createEnemies s) = map (\<lambda>i. Some (newEnemy (currentWave s) i)) [0..<55]"
    using assms by (simp add: createEnemies_eq MAX_ENEMIES_def)
  have slot: "enemies (createEnemies s) ! i = Some (newEnemy (currentWave s) i)" if "i < 55" for i
    using that by (simp add: es)
  have cell: "newEnemy w i =
      \<lparr>e_px = real (i mod 11) * (of_int ENEMY_WIDTH + 10) + 100,
       e_py = real (i div 11) * (of_int ENEMY_HEIGHT + 10) + 100,
       killReward = 10 * w,
       e_shootTimer = max 0.20 (1 - 0.05 * of_int w)\<rparr>" for w i
  proof -
    have "int i mod 11 = int (i mod 11)" "int i div 11 = int (i div 11)"
      by (simp_all add: zmod_int zdiv_int)
    then have "real_of_int (int i mod 11) = real (i mod 11)"
      "real_of_int (int i div 11) = real (i div 11)"
      by simp_all
    then show ?thesis
      by (simp add: newEnemy_def Let_def algebra_simps)
  qed
  have "live (enemies (createEnemies s)) = 55"
    by (simp add: es live_def)
  moreover have "length (enemies (createEnemies s)) = 55"
    by (simp add: es)
  moreover have "\<forall>i<55. enemies (createEnemies s) ! i = Some
             \<lparr>e_px = real (i mod 11) * (of_int ENEMY_WIDTH + 10) + 100,
              e_py = real (i div 11) * (of_int ENEMY_HEIGHT + 10) + 100,
              killReward = 10 * currentWave s,
              e_shootTimer = max 0.20 (1 - 0.05 * of_int (currentWave s))\<rparr>"
    using slot cell by simp
  moreover have "map_option (\<lambda>e. (e_px e, e_py e)) (enemies (createEnemies s) ! 0) = Some (100, 100)"
    by (simp add: slot cell ENEMY_WIDTH_def ENEMY_HEIGHT_def)
  moreover have "map_option (\<lambda>e. (e_px e, e_py e)) (enemies (createEnemies s) ! 10) = Some (500, 100)"
    by (simp add: slot cell ENEMY_WIDTH_def ENEMY_HEIGHT_def)
  moreover have "map_option (\<lambda>e. (e_px e, e_py e)) (enemies (createEnemies s) ! 11) = Some (100, 140)"
    by (simp add: slot cell ENEMY_WIDTH_def ENEMY_HEIGHT_def)
  ultimately show ?thesis by blast
qed

theorem createEnemies_grid_witness:
  "length (enemies (globals0\<lparr>currentWave := 3\<rparr>)) = MAX_ENEMIES
   \<and> (12::nat) < 55
   \<and> enemies (createEnemies (globals0\<lparr>currentWave := 3\<rparr>)) ! 12 =
       Some \<lparr>e_px = 140, e_py = 140, killReward = 30, e_shootTimer = 0.85\<rparr>
   \<and> live (enemies (createEnemies (globals0\<lparr>currentWave := 3\<rparr>))) = 55"
proof -
  have len: "length (enemies (globals0\<lparr>currentWave := 3\<rparr>)) = MAX_ENEMIES"
    by (simp add: globals0_def)
  show ?thesis
    using len createEnemies_grid [OF len] by (simp add: globals0_def ENEMY_WIDTH_def ENEMY_HEIGHT_def)
qed

text \<open>
  C6 (amended). Let the bullet of slot \<open>i\<close> have \<open>vy = 1\<close> and overlap the rectangle of the
  player that \<^verbatim>\<open>checkBulletCollisions\<close> computed when it was called. Then its iteration calls
  \<^verbatim>\<open>createParticle\<close> for a ship-destruction particle with lifetime 0.5 at the position of
  the bullet (installed in the first free slot of the particle pool, dropped when there is
  none), releases the bullet and takes one life. The game-over flag is set when the lives
  left are at most 0 and keeps its value otherwise. The player is put at
  \<open>(WINDOW_WIDTH div 2, WINDOW_HEIGHT - WINDOW_HEIGHT div 14) = (320, 446)\<close>, the divisions
  being integer divisions.
\<close>

theorem enemy_bullet_hits_player:
  assumes "bullets s ! i = Some b" and "vy b = 1" and "SDL_HasIntersection (bulletRect b) pRect"
  shows "collideBullet pRect i s =
      (createParticle \<lparr>pt_px = b_px b, pt_py = b_py b, lifetime = 0.5, particleType = SHIP_EXPLOSION\<rparr> s)
        \<lparr>bullets := (bullets s)[i := None],
         player := (player s)\<lparr>livesLeft := livesLeft (player s) - 1, p_px := 320, p_py := 446\<rparr>,
         gameOver := (gameOver s \<or> livesLeft (player s) - 1 \<le> 0)\<rparr>
    \<and> particles (collideBullet pRect i s) =
        install [0..<MAX_PARTICLES]
          \<lparr>pt_px = b_px b, pt_py = b_py b, lifetime = 0.5, particleType = SHIP_EXPLOSION\<rparr> (particles s)
    \<and> bullets (collideBullet pRect i s) = (bullets s)[i := None]
    \<and> livesLeft (player (collideBullet pRect i s)) = livesLeft (player s) - 1
    \<and> (gameOver (collideBullet pRect i s) \<longleftrightarrow>
         gameOver s \<or> livesLeft (player (collideBullet pRect i s)) \<le> 0)
    \<and> p_px (player (collideBullet pRect i s)) = of_int (WINDOW_WIDTH div 2)
    \<and> p_py (player (collideBullet pRect i s)) = of_int (WINDOW_HEIGHT - WINDOW_HEIGHT div 14)
    \<and> p_px (player (collideBullet pRect i s)) = 320
    \<and> p_py (player (collideBullet pRect i s)) = 446"
  by (simp add: collideBullet_hit [OF assms] createParticle_def WINDOW_WIDTH_def WINDOW_HEIGHT_def)

theorem enemy_bullet_hits_player_witness:
  "bullets last_life ! 0 = Some \<lparr>b_px = 105, b_py = 450, vy = 1\<rparr>
   \<and> vy \<lparr>b_px = 105, b_py = 450, vy = 1\<rparr> = 1
   \<and> SDL_HasIntersection (bulletRect \<lparr>b_px = 105, b_py = 450, vy = 1\<rparr>) (playerRect (player last_life))
   \<and> livesLeft (player last_life) = 1
   \<and> livesLeft (player (checkBulletCollisions last_life)) = 0
   \<and> gameOver (checkBulletCollisions last_life)
   \<and> p_px (player (checkBulletCollisions last_life)) = 320
   \<and> p_py (player (checkBulletCollisions last_life)) = 446
   \<and> bullets (checkBulletCollisions last_life) ! 0 = None
   \<and> particles (checkBulletCollisions last_life) ! 0 =
       Some \<lparr>pt_px = 105, pt_py = 450, lifetime = 0.5, particleType = SHIP_EXPLOSION\<rparr>"
proof -
  let ?b = "\<lparr>b_px = 105, b_py = 450, vy = 1\<rparr>"
  have h1: "bullets last_life ! 0 = Some ?b" and h2: "vy ?b = 1"
    and h3: "SDL_HasIntersection (bulletRect ?b) (playerRect (player last_life))"
    by (simp_all add: last_life_facts overlap_105_450)
  have c: "collideBullet (playerRect (player last_life)) 0 last_life = checkBulletCollisions last_life"
    by (rule checkBulletCollisions_slot0 [symmetric]) (rule last_life_facts)
  note T = enemy_bullet_hits_player [OF h1 h2 h3, unfolded c]
  note T' = T [THEN conjunct2, THEN conjunct2, THEN conjunct2]
  have l: "livesLeft (player (checkBulletCollisions last_life)) = 0"
    using T' by (simp add: last_life_facts)
  have g: "gameOver (checkBulletCollisions last_life)"
    using T' l by simp
  have x: "p_px (player (checkBulletCollisions last_life)) = 320"
    and y: "p_py (player (checkBulletCollisions last_life)) = 446"
    using T' by simp_all
  have p: "particles (checkBulletCollisions last_life) ! 0 =
       Some \<lparr>pt_px = 105, pt_py = 450, lifetime = 0.5, particleType = SHIP_EXPLOSION\<rparr>"
    by (simp add: T [THEN conjunct2, THEN conjunct1] last_life_facts MAX_PARTICLES_def upt_conv_Cons)
  have "bullets (checkBulletCollisions last_life) = (bullets last_life)[0 := None]"
    by (rule T [THEN conjunct2, THEN conjunct2, THEN conjunct1])
  then have b: "bullets (checkBulletCollisions last_life) ! 0 = None"
    by (simp add: last_life_def MAX_PROJECTILES_def)
  show ?thesis
    using h1 h3 l g x y p b by (simp add: last_life_facts(4))
qed

text \<open>
  The specification puts the player at height \<open>480 - 480 / 14\<close>, about 445.7, has a particle
  spawned and the flag set exactly when no life is left. In the state \<open>crowded_hit\<close> the
  player lands at height 446, no particle is added to the full pool, and the flag is set
  with two lives left.
\<close>

theorem enemy_bullet_hits_player_counterexample:
  "bullets crowded_hit ! 0 = Some \<lparr>b_px = 105, b_py = 450, vy = 1\<rparr>
   \<and> SDL_HasIntersection (bulletRect \<lparr>b_px = 105, b_py = 450, vy = 1\<rparr>) (playerRect (player crowded_hit))
   \<and> p_py (player (checkBulletCollisions crowded_hit)) = 446
   \<and> p_py (player (checkBulletCollisions crowded_hit)) \<noteq>
       real_of_int WINDOW_HEIGHT - real_of_int WINDOW_HEIGHT / 14
   \<and> particles (checkBulletCollisions crowded_hit) = particles crowded_hit
   \<and> livesLeft (player (checkBulletCollisions crowded_hit)) = 2
   \<and> gameOver (checkBulletCollisions crowded_hit)"
proof -
  let ?b = "\<lparr>b_px = 105, b_py = 450, vy = 1\<rparr>"
  have h1: "bullets crowded_hit ! 0 = Some ?b" and h2: "vy ?b = 1"
    and h3: "SDL_HasIntersection (bulletRect ?b) (playerRect (player crowded_hit))"
    by (simp_all add: crowded_hit_facts overlap_105_450)
  have c: "checkBulletCollisions crowded_hit = collideBullet (playerRect (player crowded_hit)) 0 crowded_hit"
    by (rule checkBulletCollisions_slot0) (rule crowded_hit_facts)
  have full: "createParticle p crowded_hit = crowded_hit" for p
    by (rule createParticle_full) (rule crowded_hit_facts)
  note H = collideBullet_hit [OF h1 h2 h3]
  have y: "p_py (player (checkBulletCollisions crowded_hit)) = 446"
    and l: "livesLeft (player (checkBulletCollisions crowded_hit)) = 2"
    and g: "gameOver (checkBulletCollisions crowded_hit)"
    and p: "particles (checkBulletCollisions crowded_hit) = particles crowded_hit"
    unfolding c H full by (simp_all add: crowded_hit_facts(4,5))
  have n: "p_py (player (checkBulletCollisions crowded_hit)) \<noteq>
       real_of_int WINDOW_HEIGHT - real_of_int WINDOW_HEIGHT / 14"
    unfolding y by (simp add: WINDOW_HEIGHT_def)
  show ?thesis
    using h1 h3 y l g p n by simp
qed

text \<open>
  C7. \<^verbatim>\<open>checkGameState\<close> runs the game-over block first and the wave-clear block on the
  state it leaves, so the emptiness test reads the pool that the reset has just filled:
  on a frame with the game-over flag the wave-clear block does nothing and the wave number
  stays the same.
\<close>

theorem game_over_frame_keeps_wave:
  assumes "pools_ok s" and "gameOver s"
  shows "checkGameState s = nextWave (resetGame s)
       \<and> \<not> spawnNextWave (resetGame s)
       \<and> checkGameState s = resetGame s
       \<and> currentWave (checkGameState s) = currentWave s"
proof -
  have a: "\<not> spawnNextWave (resetGame s)"
    by (rule spawnNextWave_resetGame [OF assms])
  then have b: "checkGameState s = resetGame s"
    by (simp add: checkGameState_def nextWave_def)
  have "currentWave (resetGame s) = currentWave s"
    by (simp add: resetGame_eq [OF assms])
  with a b show ?thesis
    by (simp add: checkGameState_def)
qed

theorem game_over_frame_keeps_wave_witness:
  "pools_ok lost_game \<and> gameOver lost_game
   \<and> list_all (\<lambda>slot. slot = None) (enemies (freeEnemies lost_game))
   \<and> \<not> spawnNextWave (resetGame lost_game)
   \<and> currentWave (checkGameState lost_game) = 2"
proof -
  have ok: "pools_ok lost_game" and over: "gameOver lost_game"
    by (simp_all add: lost_game_def pools_ok_def)
  have "length (enemies lost_game) = MAX_ENEMIES"
    using ok by (simp add: pools_ok_def)
  then have "list_all (\<lambda>slot. slot = None) (enemies (freeEnemies lost_game))"
    by (simp add: freeEnemies_eq list_all_length)
  moreover have "currentWave lost_game = 2"
    by (simp add: lost_game_def)
  ultimately show ?thesis
    using ok over game_over_frame_keeps_wave [OF ok over]
    by metis
qed

text \<open>
  C8. \<^verbatim>\<open>createBullet\<close> and \<^verbatim>\<open>createParticle\<close> install the new entity in the first empty
  slot in index order, and leave the whole state as it is when every slot is occupied. The
  arrays keep their sizes through every frame, so in every state the game reaches the bullet
  and the particle pool hold at most 20 entities and the enemy pool at most 55. A slot that
  has been released is empty for the next call: the call installs its entity at or below
  that slot, and in that very slot when all slots below it are occupied.
\<close>

theorem spawn_first_free_or_nothing:
  "(i < MAX_PROJECTILES \<and> bullets s ! i = None \<and> (\<forall>k<i. bullets s ! k \<noteq> None) \<longrightarrow>
      createBullet bx by dir s = s\<lparr>bullets := (bullets s)[i := Some (newBullet bx by dir)]\<rparr>)
   \<and> ((\<forall>k<MAX_PROJECTILES. bullets s ! k \<noteq> None) \<longrightarrow> createBullet bx by dir s = s)
   \<and> (i < MAX_PARTICLES \<and> particles s ! i = None \<and> (\<forall>k<i. particles s ! k \<noteq> None) \<longrightarrow>
      createParticle p s = s\<lparr>particles := (particles s)[i := Some p]\<rparr>)
   \<and> ((\<forall>k<MAX_PARTICLES. particles s ! k \<noteq> None) \<longrightarrow> createParticle p s = s)
   \<and> (reachable s \<longrightarrow>
        pools_ok s \<and> live (bullets s) \<le> 20 \<and> live (particles s) \<le> 20 \<and> live (enemies s) \<le> 55)
   \<and> (pools_ok s \<longrightarrow>
        pools_ok (createBullet bx by dir s) \<and> live (bullets (createBullet bx by dir s)) \<le> 20
      \<and> pools_ok (createParticle p s) \<and> live (particles (createParticle p s)) \<le> 20)
   \<and> (i < MAX_PROJECTILES \<and> i < length (bullets s) \<longrightarrow>
        (\<exists>k\<le>i. (bullets s)[i := None] ! k = None
           \<and> createBullet bx by dir (s\<lparr>bullets := (bullets s)[i := None]\<rparr>) =
               s\<lparr>bullets := (bullets s)[i := None, k := Some (newBullet bx by dir)]\<rparr>
           \<and> ((\<forall>j<i. bullets s ! j \<noteq> None) \<longrightarrow> k = i)))
   \<and> (i < MAX_PARTICLES \<and> i < length (particles s) \<longrightarrow>
        (\<exists>k\<le>i. (particles s)[i := None] ! k = None
           \<and> createParticle p (s\<lparr>particles := (particles s)[i := None]\<rparr>) =
               s\<lparr>particles := (particles s)[i := None, k := Some p]\<rparr>
           \<and> ((\<forall>j<i. particles s ! j \<noteq> None) \<longrightarrow> k = i)))"
proof (intro conjI impI)
  assume "i < MAX_PROJECTILES \<and> bullets s ! i = None \<and> (\<forall>k<i. bullets s ! k \<noteq> None)"
  then show "createBullet bx by dir s = s\<lparr>bullets := (bullets s)[i := Some (newBullet bx by dir)]\<rparr>"
    by (simp add: createBullet_first)
next
  assume "\<forall>k<MAX_PROJECTILES. bullets s ! k \<noteq> None"
  then show "createBullet bx by dir s = s"
    by (rule createBullet_full)
next
  assume "i < MAX_PARTICLES \<and> particles s ! i = None \<and> (\<forall>k<i. particles s ! k \<noteq> None)"
  then show "createParticle p s = s\<lparr>particles := (particles s)[i := Some p]\<rparr>"
    by (simp add: createParticle_first)
next
  assume "\<forall>k<MAX_PARTICLES. particles s ! k \<noteq> None"
  then show "createParticle p s = s"
    by (rule createParticle_full)
next
  assume "reachable s"
  then have ok: "pools_ok s"
    by (rule reachable_pools_ok)
  then show "pools_ok s" .
  show "live (bullets s) \<le> 20" "live (particles s) \<le> 20" "live (enemies s) \<le> 55"
    using ok live_le_length [of "bullets s"] live_le_length [of "particles s"]
      live_le_length [of "enemies s"]
    by (simp_all add: pools_ok_def constants)
next
  assume ok: "pools_ok s"
  show b: "pools_ok (createBullet bx by dir s)" and p: "pools_ok (createParticle p s)"
    using ok by (simp_all add: pools_ok_sizes)
  show "live (bullets (createBullet bx by dir s)) \<le> 20"
    using b live_le_length [of "bullets (createBullet bx by dir s)"]
    by (simp add: pools_ok_def constants)
  show "live (particles (createParticle p s)) \<le> 20"
    using p live_le_length [of "particles (createParticle p s)"]
    by (simp add: pools_ok_def constants)
next
  assume a: "i < MAX_PROJECTILES \<and> i < length (bullets s)"
  let ?pool = "(bullets s)[i := None]"
  have "?pool ! i = None"
    using a by simp
  then obtain k where k: "k \<le> i" "?pool ! k = None" "\<forall>j<k. ?pool ! j \<noteq> None"
    using first_free_slot by blast
  have "createBullet bx by dir (s\<lparr>bullets := ?pool\<rparr>) =
        s\<lparr>bullets := ?pool[k := Some (newBullet bx by dir)]\<rparr>"
    using a k by (simp add: createBullet_def install_first [of k MAX_PROJECTILES ?pool])
  moreover have "k = i" if "\<forall>j<i. bullets s ! j \<noteq> None"
  proof (rule ccontr)
    assume "k \<noteq> i"
    then have "k < i" using k(1) by simp
    then show False using that k(2) by auto
  qed
  ultimately show "\<exists>k\<le>i. ?pool ! k = None
           \<and> createBullet bx by dir (s\<lparr>bullets := ?pool\<rparr>) =
               s\<lparr>bullets := ?pool[k := Some (newBullet bx by dir)]\<rparr>
           \<and> ((\<forall>j<i. bullets s ! j \<noteq> None) \<longrightarrow> k = i)"
    using k by blast
next
  assume a: "i < MAX_PARTICLES \<and> i < length (particles s)"
  let ?pool = "(particles s)[i := None]"
  have "?pool ! i = None"
    using a by simp
  then obtain k where k: "k \<le> i" "?pool ! k = None" "\<forall>j<k. ?pool ! j \<noteq> None"
    using first_free_slot by blast
  have "createParticle p (s\<lparr>particles := ?pool\<rparr>) = s\<lparr>particles := ?pool[k := Some p]\<rparr>"
    using a k by (simp add: createParticle_def Particle_copy install_first [of k MAX_PARTICLES ?pool])
  moreover have "k = i" if "\<forall>j<i. particles s ! j \<noteq> None"
  proof (rule ccontr)
    assume "k \<noteq> i"
    then have "k < i" using k(1) by simp
    then show False using that k(2) by auto
  qed
  ultimately show "\<exists>k\<le>i. ?pool ! k = None
           \<and> createParticle p (s\<lparr>particles := ?pool\<rparr>) = s\<lparr>particles := ?pool[k := Some p]\<rparr>
           \<and> ((\<forall>j<i. particles s ! j \<noteq> None) \<longrightarrow> k = i)"
    using k by blast
qed

theorem spawn_first_free_or_nothing_witness:
  "bullets lost_game ! 0 \<noteq> None \<and> bullets lost_game ! 1 = None
   \<and> createBullet 320 446 (- 1) lost_game =
       lost_game\<lparr>bullets := (bullets lost_game)[1 := Some \<lparr>b_px = 330, b_py = 456, vy = - 1\<rparr>]\<rparr>
   \<and> particles lost_game ! 0 = None
   \<and> createParticle \<lparr>pt_px = 1, pt_py = 2, lifetime = 0.5, particleType = SHIP_EXPLOSION\<rparr> lost_game =
       lost_game\<lparr>particles := (particles lost_game)
         [0 := Some \<lparr>pt_px = 1, pt_py = 2, lifetime = 0.5, particleType = SHIP_EXPLOSION\<rparr>]\<rparr>
   \<and> list_all (\<lambda>slot. slot \<noteq> None) (bullets full_pools)
   \<and> createBullet 320 446 (- 1) full_pools = full_pools
   \<and> list_all (\<lambda>slot. slot \<noteq> None) (particles full_pools)
   \<and> createParticle \<lparr>pt_px = 1, pt_py = 2, lifetime = 0.5, particleType = SHIP_EXPLOSION\<rparr> full_pools =
       full_pools
   \<and> reachable init \<and> live (bullets init) \<le> 20 \<and> live (enemies init) \<le> 55
   \<and> pools_ok full_pools
   \<and> createBullet 10 20 1 (full_pools\<lparr>bullets := (bullets full_pools)[5 := None]\<rparr>) =
       full_pools\<lparr>bullets := (bullets full_pools)[5 := Some \<lparr>b_px = 25, b_py = 35, vy = 1\<rparr>]\<rparr>"
proof -
  let ?p = "\<lparr>pt_px = 1, pt_py = 2, lifetime = 0.5, particleType = SHIP_EXPLOSION\<rparr>"
  note T1 = spawn_first_free_or_nothing [of 1 lost_game 320 446 "- 1" ?p]
  note T0 = spawn_first_free_or_nothing [of 0 lost_game 320 446 "- 1" ?p]
  note T2 = spawn_first_free_or_nothing [of 0 full_pools 320 446 "- 1" ?p]
  note T3 = spawn_first_free_or_nothing [of 0 init 320 446 "- 1" ?p]
  note T4 = spawn_first_free_or_nothing [of 5 full_pools 10 20 1 ?p]
  have nb: "newBullet 320 446 (- 1) = \<lparr>b_px = 330, b_py = 456, vy = - 1\<rparr>"
    "newBullet 10 20 1 = \<lparr>b_px = 25, b_py = 35, vy = 1\<rparr>"
    by (simp_all add: newBullet_def constants)
  have h1: "1 < MAX_PROJECTILES \<and> bullets lost_game ! 1 = None \<and> (\<forall>k<1. bullets lost_game ! k \<noteq> None)"
    by (simp add: lost_game_def constants)
  have c1: "createBullet 320 446 (- 1) lost_game =
       lost_game\<lparr>bullets := (bullets lost_game)[1 := Some \<lparr>b_px = 330, b_py = 456, vy = - 1\<rparr>]\<rparr>"
    using T1 h1 unfolding nb by blast
  have h0: "0 < MAX_PARTICLES \<and> particles lost_game ! 0 = None \<and> (\<forall>k<0. particles lost_game ! k \<noteq> None)"
    by (simp add: lost_game_def constants)
  have c0: "createParticle ?p lost_game = lost_game\<lparr>particles := (particles lost_game)[0 := Some ?p]\<rparr>"
    using T0 h0 by blast
  have h2: "\<forall>k<MAX_PROJECTILES. bullets full_pools ! k \<noteq> None"
    "\<forall>k<MAX_PARTICLES. particles full_pools ! k \<noteq> None"
    by (simp_all add: full_pools_def)
  have c2: "createBullet 320 446 (- 1) full_pools = full_pools"
    "createParticle ?p full_pools = full_pools"
    using T2 h2 by blast+
  have l2: "list_all (\<lambda>slot. slot \<noteq> None) (bullets full_pools)"
    "list_all (\<lambda>slot. slot \<noteq> None) (particles full_pools)"
    by (simp_all add: full_pools_def list_all_length)
  have h3: "reachable init"
    by (rule reachable.start)
  have c3: "live (bullets init) \<le> 20 \<and> live (enemies init) \<le> 55"
    using T3 h3 by blast
  have h4: "pools_ok full_pools"
    by (simp add: full_pools_def globals0_def pools_ok_def)
  have h5: "5 < MAX_PROJECTILES \<and> 5 < length (bullets full_pools)"
    "\<forall>j<5. bullets full_pools ! j \<noteq> None"
    by (simp_all add: full_pools_def constants)
  have c5: "createBullet 10 20 1 (full_pools\<lparr>bullets := (bullets full_pools)[5 := None]\<rparr>) =
       full_pools\<lparr>bullets := (bullets full_pools)[5 := None, 5 := Some \<lparr>b_px = 25, b_py = 35, vy = 1\<rparr>]\<rparr>"
    using T4 h5 unfolding nb by blast
  have h6: "bullets lost_game ! 0 \<noteq> None"
    by (simp add: lost_game_def constants)
  show ?thesis
    using h1 c1 h0 c0 l2 c2 h3 c3 h4 c5 h6 by simp
qed

text \<open>
  C9. \<^verbatim>\<open>enemyShoot\<close> scans the slots 54 down to 0 as 5 rows of 11 positions and handles, at
  each position, only the first live enemy it meets. An enemy that is not the first at its
  position is left exactly as it was. An enemy that is the first keeps every field but its
  shoot timer, which loses \<open>delta\<close>, after being set to 1 when the enemy fires. At most 11
  enemies are the first at their position, at most 11 slots change, and at most 11 bullets
  are added.
\<close>

theorem enemyShoot_first_per_position:
  assumes "length (enemies s) = MAX_ENEMIES"
  shows "(\<forall>k<MAX_ENEMIES. \<not> first_at_pos (enemies s) k \<longrightarrow>
            enemies (enemyShoot delta rnd s) ! k = enemies s ! k)
       \<and> (\<forall>k<MAX_ENEMIES. first_at_pos (enemies s) k \<longrightarrow>
            (\<exists>e e'. enemies s ! k = Some e \<and> enemies (enemyShoot delta rnd s) ! k = Some e'
                   \<and> shot delta e e'))
       \<and> card {k. k < MAX_ENEMIES \<and> first_at_pos (enemies s) k} \<le> 11
       \<and> card {k. k < MAX_ENEMIES \<and> enemies (enemyShoot delta rnd s) ! k \<noteq> enemies s ! k} \<le> 11
       \<and> live (bullets (enemyShoot delta rnd s)) \<le> live (bullets s) + 11"
proof -
  let ?st = "fold (shootStep delta rnd) (map (\<lambda>m. m mod 11) [0..<MAX_ENEMIES])
               (s, int MAX_ENEMIES - 1, replicate 11 0, 0)"
  obtain t index found n where st: "?st = (t, index, found, n)"
    by (cases ?st) auto
  have t: "enemyShoot delta rnd s = t"
    by (simp add: enemyShoot_flat st)
  have "shoot_inv s delta MAX_ENEMIES ?st"
    by (rule shoot_inv_fold [OF shoot_inv_start [OF assms]]) simp
  then have I: "(\<forall>k<MAX_ENEMIES.
        if visited MAX_ENEMIES k \<and> first_at_pos (enemies s) k
        then \<exists>e e'. enemies s ! k = Some e \<and> enemies t ! k = Some e' \<and> shot delta e e'
        else enemies t ! k = enemies s ! k)"
    and n: "n = card {k. visited MAX_ENEMIES k \<and> first_at_pos (enemies s) k}"
    and b: "live (bullets t) \<le> live (bullets s) + n"
    unfolding st shoot_inv_def prod.case by blast+
  have v: "visited MAX_ENEMIES k \<longleftrightarrow> k < MAX_ENEMIES" for k
    by (simp add: visited_def)
  have a1: "enemies t ! k = enemies s ! k" if "k < MAX_ENEMIES" "\<not> first_at_pos (enemies s) k" for k
    using I [rule_format, OF that(1)] that(2) by simp
  have a2: "\<exists>e e'. enemies s ! k = Some e \<and> enemies t ! k = Some e' \<and> shot delta e e'"
    if "k < MAX_ENEMIES" "first_at_pos (enemies s) k" for k
    using I [rule_format, OF that(1)] that by (simp add: v)
  have a3: "card {k. k < MAX_ENEMIES \<and> first_at_pos (enemies s) k} \<le> 11"
    by (rule first_at_pos_card)
  have "{k. k < MAX_ENEMIES \<and> enemies t ! k \<noteq> enemies s ! k} \<subseteq>
        {k. k < MAX_ENEMIES \<and> first_at_pos (enemies s) k}"
    using a1 by blast
  then have "card {k. k < MAX_ENEMIES \<and> enemies t ! k \<noteq> enemies s ! k} \<le>
             card {k. k < MAX_ENEMIES \<and> first_at_pos (enemies s) k}"
    by (rule card_mono [rotated]) simp
  then have a4: "card {k. k < MAX_ENEMIES \<and> enemies t ! k \<noteq> enemies s ! k} \<le> 11"
    using a3 by simp
  have "n \<le> 11"
    using a3 by (simp add: n v)
  then have a5: "live (bullets t) \<le> live (bullets s) + 11"
    using b by simp
  show ?thesis
    unfolding t using a1 a2 a3 a4 a5 by blast
qed

theorem enemyShoot_first_per_position_witness:
  "length (enemies thinned) = MAX_ENEMIES
   \<and> (32 < MAX_ENEMIES \<and> \<not> first_at_pos (enemies thinned) 32)
   \<and> enemies (enemyShoot (1 / 50) (\<lambda>n. 3) thinned) ! 32 = Some (newEnemy 1 32)
   \<and> (43 < MAX_ENEMIES \<and> first_at_pos (enemies thinned) 43)
   \<and> enemies (enemyShoot (1 / 50) (\<lambda>n. 3) thinned) ! 43 =
       Some ((newEnemy 1 43)\<lparr>e_shootTimer := 0.93\<rparr>)
   \<and> card {k. k < MAX_ENEMIES \<and> enemies (enemyShoot (1 / 50) (\<lambda>n. 3) thinned) ! k \<noteq> enemies thinned ! k} \<le> 11
   \<and> live (bullets (enemyShoot (1 / 50) (\<lambda>n. 3) thinned)) \<le> live (bullets thinned) + 11"
proof -
  have len: "length (enemies thinned) = MAX_ENEMIES"
    by (simp add: thinned_def init_eq)
  note T = enemyShoot_first_per_position [OF len, of "1 / 50" "\<lambda>n. 3"]
  have k32: "32 < MAX_ENEMIES" and k43: "43 < MAX_ENEMIES"
    by (simp_all add: MAX_ENEMIES_def)
  have "scan_pos 43 = scan_pos 32"
    by (simp add: scan_pos_def MAX_ENEMIES_def)
  moreover have "enemies thinned ! 43 \<noteq> None"
    by (simp add: thinned_slot)
  ultimately have n32: "\<not> first_at_pos (enemies thinned) 32"
    using k43 by (intro not_first_at_pos [of 32 43]) simp_all
  have f43: "first_at_pos (enemies thinned) 43"
    unfolding first_at_pos_def
  proof (intro conjI allI impI)
    show "enemies thinned ! 43 \<noteq> None"
      by (simp add: thinned_slot)
  next
    fix k'
    assume a: "43 < k' \<and> k' < MAX_ENEMIES \<and> scan_pos k' = scan_pos 43"
    then have "k' < 55" "(54 - k') mod 11 = 0" "43 < k'"
      by (simp_all add: scan_pos_def MAX_ENEMIES_def)
    then have "k' = 54"
      by presburger
    then show "enemies thinned ! k' = None"
      by (simp add: thinned_slot)
  qed
  have r32: "enemies (enemyShoot (1 / 50) (\<lambda>n. 3) thinned) ! 32 = Some (newEnemy 1 32)"
    using T [THEN conjunct1, rule_format, OF k32 n32] by (simp add: thinned_slot)
  obtain e e' where e: "enemies thinned ! 43 = Some e"
    and e': "enemies (enemyShoot (1 / 50) (\<lambda>n. 3) thinned) ! 43 = Some e'"
    and sh: "shot (1 / 50) e e'"
    using T [THEN conjunct2, THEN conjunct1, rule_format, OF k43 f43] by blast
  have e43: "e = newEnemy 1 43"
    using e by (simp add: thinned_slot)
  have timer: "e_shootTimer (newEnemy 1 43) = 0.95"
    by (simp add: newEnemy_def)
  have "e' = (newEnemy 1 43)\<lparr>e_shootTimer := 0.93\<rparr>"
    using sh unfolding shot_def e43 timer by simp
  then have r43: "enemies (enemyShoot (1 / 50) (\<lambda>n. 3) thinned) ! 43 =
       Some ((newEnemy 1 43)\<lparr>e_shootTimer := 0.93\<rparr>)"
    using e' by simp
  note c = T [THEN conjunct2, THEN conjunct2, THEN conjunct2, THEN conjunct1]
  note b = T [THEN conjunct2, THEN conjunct2, THEN conjunct2, THEN conjunct2]
  show ?thesis
    by (intro conjI len k32 n32 r32 k43 f43 r43 c b)
qed




end
